theory Spec2Isabelle
  imports Complex_Main
begin

section \<open>Configuration (app/main.py, lines 45-59)\<close>

text \<open>
  Python ints that only count upwards from zero are natural numbers. Times, confidences
  and box coordinates are real numbers: every float is one, and the comparisons the code
  makes on them are exact. The detector, the image codec, the file system and the HTTP
  client are outside the program: what they deliver for one frame is an input of the
  model.
\<close>

text \<open>
  \<open>CONF_THRESH = 0.3\<close>: the double nearest to 0.3 lies below 3/10 by less than 2^-54 and
  no single-precision confidence lies between the two, so \<open>score < CONF_THRESH\<close> decides
  as the comparison with 3/10 does.
\<close>

definition CONF_THRESH :: real where
  "CONF_THRESH = 3 / 10"

definition ACCIDENT_CONFIRM_FRAMES :: nat where
  "ACCIDENT_CONFIRM_FRAMES = 3"

definition FRAME_BUFFER_SIZE :: nat where
  "FRAME_BUFFER_SIZE = 30"

definition ALERT_COOLDOWN_SECONDS :: real where
  "ALERT_COOLDOWN_SECONDS = 60"

definition PRE_SNAPSHOT_COUNT :: nat where
  "PRE_SNAPSHOT_COUNT = 5"

definition POST_CAPTURE_SECONDS :: nat where
  "POST_CAPTURE_SECONDS = 5"

definition POST_CAPTURE_FPS :: nat where
  "POST_CAPTURE_FPS = 5"

definition POST_CAPTURE_FRAMES :: nat where
  "POST_CAPTURE_FRAMES = POST_CAPTURE_SECONDS * POST_CAPTURE_FPS"

definition VIDEO_CONFIRM_FRAMES :: nat where
  "VIDEO_CONFIRM_FRAMES = 3"

text \<open>The literal \<open>maxlen=15\<close> of the candidate deque in \<open>get_camera_state\<close>.\<close>

definition CANDIDATE_MAXLEN :: nat where
  "CANDIDATE_MAXLEN = 15"


section \<open>Geometry (boxes_overlap, compute_max_overlap_ratio)\<close>

text \<open>A box is \<open>[x1, y1, x2, y2]\<close>.\<close>

type_synonym box = "real \<times> real \<times> real \<times> real"

fun boxes_overlap :: "box \<Rightarrow> box \<Rightarrow> bool" where
  "boxes_overlap (x1_min, y1_min, x1_max, y1_max) (x2_min, y2_min, x2_max, y2_max) =
     (if x1_max < x2_min \<or> x2_max < x1_min then False
      else if y1_max < y2_min \<or> y2_max < y1_min then False
      else True)"

text \<open>
  The body of the inner loop of \<open>compute_max_overlap_ratio\<close> for one \<open>j\<close>: the new
  value of \<open>max_ratio\<close>. Every \<open>continue\<close> leaves it as it was.
\<close>

fun pair_update :: "box \<Rightarrow> real \<Rightarrow> box \<Rightarrow> real \<Rightarrow> real" where
  "pair_update (x1_min, y1_min, x1_max, y1_max) area1 (x2_min, y2_min, x2_max, y2_max) max_ratio =
     (let area2 = max 0 (x2_max - x2_min) * max 0 (y2_max - y2_min) in
      if area2 \<le> 0 then max_ratio
      else
        let ix_min = max x1_min x2_min;
            iy_min = max y1_min y2_min;
            ix_max = min x1_max x2_max;
            iy_max = min y1_max y2_max;
            iw = max 0 (ix_max - ix_min);
            ih = max 0 (iy_max - iy_min);
            inter = iw * ih
        in if inter \<le> 0 then max_ratio
           else
             let union = area1 + area2 - inter in
             if union \<le> 0 then max_ratio
             else
               let ratio = inter / union in
               if ratio > max_ratio then ratio else max_ratio)"

text \<open>\<open>for j in range(i + 1, n)\<close>: the boxes after box \<open>i\<close>, in order.\<close>

fun inner_loop :: "box \<Rightarrow> real \<Rightarrow> box list \<Rightarrow> real \<Rightarrow> real" where
  "inner_loop b1 area1 [] max_ratio = max_ratio"
| "inner_loop b1 area1 (b2 # rest) max_ratio =
     inner_loop b1 area1 rest (pair_update b1 area1 b2 max_ratio)"

text \<open>\<open>for i in range(n)\<close>: box \<open>i\<close> and the boxes after it.\<close>

fun outer_loop :: "box list \<Rightarrow> real \<Rightarrow> real" where
  "outer_loop [] max_ratio = max_ratio"
| "outer_loop ((x1_min, y1_min, x1_max, y1_max) # rest) max_ratio =
     (let area1 = max 0 (x1_max - x1_min) * max 0 (y1_max - y1_min) in
      if area1 \<le> 0 then outer_loop rest max_ratio
      else outer_loop rest (inner_loop (x1_min, y1_min, x1_max, y1_max) area1 rest max_ratio))"

definition compute_max_overlap_ratio :: "box list \<Rightarrow> real" where
  "compute_max_overlap_ratio boxes =
     (let n = length boxes in
      if n < 2 then 0 else outer_loop boxes 0)"

text \<open>
  The differences, products and the quotient in \<open>compute_max_overlap_ratio\<close> are
  written here in exact arithmetic. The code computes them in the floating-point format
  of the detector's boxes, so the value it returns is the one below only where no
  operation rounds, overflows or underflows (two identical boxes whose area overflows
  give 0.0 in the code). A NaN never passes the test \<open>ratio > max_ratio\<close>, so what the
  code returns is a number. Nothing that follows rests on the value of the ratio: it is
  carried as the field \<open>fs_max_overlap_ratio\<close> and only compared.
\<close>


section \<open>Frame scoring (detect_accident lines 311-387, analyze_video lines 639-713)\<close>

text \<open>
  One detection of the detector's result \<open>r\<close>: class id, confidence and box. The result
  holds the class names and the detections (\<open>r.boxes\<close> may be \<open>None\<close>).
\<close>

record yolo_box =
  box_cls :: int
  box_conf :: real
  box_xyxy :: box

record yolo_result =
  res_names :: "int \<rightharpoonup> string"
  res_boxes :: "yolo_box list option"

definition danger_class_names :: "string set" where
  "danger_class_names = {''person'', ''car'', ''truck'', ''motorcycle'', ''bus''}"

definition vehicle_classes :: "string set" where
  "vehicle_classes = {''car'', ''truck'', ''motorcycle'', ''bus''}"

definition person_classes :: "string set" where
  "person_classes = {''person''}"

text \<open>The local variables the counting loop updates.\<close>

record frame_counts =
  vehicle_count :: nat
  person_count :: nat
  total_danger_detections :: nat
  primary_vehicle_type :: "string option"
  filtered_boxes_xyxy :: "box list"

definition counts_init :: frame_counts where
  "counts_init = \<lparr>vehicle_count = 0, person_count = 0, total_danger_detections = 0,
     primary_vehicle_type = None, filtered_boxes_xyxy = []\<rparr>"

text \<open>The body of \<open>for i in range(len(boxes))\<close>, the same text in both endpoints.\<close>

definition count_step :: "(int \<rightharpoonup> string) \<Rightarrow> frame_counts \<Rightarrow> yolo_box \<Rightarrow> frame_counts" where
  "count_step names c b =
     (let cls_name = (case names (box_cls b) of Some s \<Rightarrow> s | None \<Rightarrow> '''');
          score = box_conf b
      in if score < CONF_THRESH then c
         else
           let c1 = c\<lparr>filtered_boxes_xyxy := filtered_boxes_xyxy c @ [box_xyxy b]\<rparr>;
               c2 = (if cls_name \<in> danger_class_names
                     then c1\<lparr>total_danger_detections := total_danger_detections c1 + 1\<rparr> else c1);
               c3 = (if cls_name \<in> vehicle_classes
                     then (let c' = c2\<lparr>vehicle_count := vehicle_count c2 + 1\<rparr> in
                           if primary_vehicle_type c' = None
                           then c'\<lparr>primary_vehicle_type := Some cls_name\<rparr> else c')
                     else c2);
               c4 = (if cls_name \<in> person_classes
                     then c3\<lparr>person_count := person_count c3 + 1\<rparr> else c3)
           in c4)"

text \<open>The collision scan: the first overlapping pair sets the flag and leaves both loops.\<close>

fun collision_inner :: "box \<Rightarrow> box list \<Rightarrow> bool" where
  "collision_inner box1 [] = False"
| "collision_inner box1 (box2 # rest) =
     (if boxes_overlap box1 box2 then True else collision_inner box1 rest)"

fun collision_scan :: "box list \<Rightarrow> bool" where
  "collision_scan [] = False"
| "collision_scan (box1 # rest) =
     (if collision_inner box1 rest then True else collision_scan rest)"

text \<open>What one frame's detections are reduced to before any decision is taken.\<close>

record frame_score =
  fs_counts :: frame_counts
  fs_collision_detected :: bool
  fs_max_overlap_ratio :: real

definition scan_frame :: "yolo_result \<Rightarrow> frame_score" where
  "scan_frame r =
     (case res_boxes r of
        None \<Rightarrow> \<lparr>fs_counts = counts_init, fs_collision_detected = False,
                  fs_max_overlap_ratio = compute_max_overlap_ratio []\<rparr>
      | Some bs \<Rightarrow>
          if length bs > 0 then
            (let c = foldl (count_step (res_names r)) counts_init bs in
             \<lparr>fs_counts = c,
              fs_collision_detected = collision_scan (filtered_boxes_xyxy c),
              fs_max_overlap_ratio = compute_max_overlap_ratio (filtered_boxes_xyxy c)\<rparr>)
          else \<lparr>fs_counts = counts_init, fs_collision_detected = False,
                 fs_max_overlap_ratio = compute_max_overlap_ratio []\<rparr>)"

datatype severity = MINOR | MEDIUM | MAJOR | CRITICAL

text \<open>\<open>severity_order.get(severity, 1)\<close>.\<close>

fun severity_order :: "severity \<Rightarrow> nat" where
  "severity_order MINOR = 1"
| "severity_order MEDIUM = 2"
| "severity_order MAJOR = 3"
| "severity_order CRITICAL = 4"

subsection \<open>The live endpoint's decisions (lines 366-387)\<close>

definition live_accident_detected_frame :: "bool \<Rightarrow> nat \<Rightarrow> nat \<Rightarrow> nat \<Rightarrow> bool" where
  "live_accident_detected_frame collision_detected vehicles persons danger =
     (if collision_detected \<and> vehicles \<ge> 2 then True
      else if collision_detected \<and> persons \<ge> 1 then True
      else if vehicles \<ge> 1 \<and> persons \<ge> 1 \<and> danger \<ge> 3 then True
      else False)"

definition live_severity :: "bool \<Rightarrow> nat \<Rightarrow> nat \<Rightarrow> severity" where
  "live_severity collision_detected vehicles persons =
     (if collision_detected \<and> vehicles \<ge> 2 then CRITICAL
      else if collision_detected \<and> persons \<ge> 1 then MAJOR
      else if vehicles \<ge> 1 \<and> persons \<ge> 2 then MEDIUM
      else MINOR)"

definition live_victims_estimated :: "nat \<Rightarrow> nat" where
  "live_victims_estimated persons = (if persons > 0 then persons else 1)"

subsection \<open>The video endpoint's decisions (lines 681-713)\<close>

definition video_accident_detected_frame :: "bool \<Rightarrow> nat \<Rightarrow> nat \<Rightarrow> nat \<Rightarrow> bool" where
  "video_accident_detected_frame collision_detected vehicles persons danger =
     (if collision_detected \<and> vehicles \<ge> 2 then True
      else if collision_detected \<and> persons \<ge> 1 then True
      else if vehicles \<ge> 1 \<and> persons \<ge> 1 \<and> danger \<ge> 3 then True
      else False)"

definition video_severity :: "bool \<Rightarrow> nat \<Rightarrow> nat \<Rightarrow> severity" where
  "video_severity collision_detected vehicles persons =
     (if collision_detected \<and> vehicles \<ge> 2 then CRITICAL
      else if collision_detected \<and> persons \<ge> 1 then MAJOR
      else if vehicles \<ge> 1 \<and> persons \<ge> 2 then MEDIUM
      else MINOR)"

definition video_victims_estimated :: "nat \<Rightarrow> nat" where
  "video_victims_estimated persons = (if persons > 0 then persons else 1)"

text \<open>The first-matching-rule table of the specification, in its own words.\<close>

definition severity_spec :: "bool \<Rightarrow> nat \<Rightarrow> nat \<Rightarrow> severity" where
  "severity_spec collision vehicles persons =
     (if collision \<and> 2 \<le> vehicles then CRITICAL
      else if collision \<and> 1 \<le> persons then MAJOR
      else if 1 \<le> vehicles \<and> 2 \<le> persons then MEDIUM
      else MINOR)"


section \<open>Live mode: the per-camera state (get_camera_state)\<close>

text \<open>
  The incident tag \<open>f"{camera_id}_{int(now_ts)}"\<close> is kept as the pair of its two parts.
  Images are values of a type \<open>'i\<close> the program never looks into.
\<close>

type_synonym incident_tag = "string \<times> int"

text \<open>The dictionary appended to \<open>candidate_frames\<close> for one accident-flagged frame.\<close>

record 'i candidate =
  cand_severity :: severity
  cand_severity_score :: nat
  cand_overlap_ratio :: real
  cand_victims_estimated :: nat
  cand_person_count :: nat
  cand_collision_detected :: bool
  cand_primary_vehicle_type :: "string option"
  cand_annotated_img :: 'i

record 'i camera_state =
  accident_counter :: nat
  frame_buffer :: "'i list"
  candidate_frames :: "'i candidate list"
  last_alert_time :: real
  post_capture_remaining :: nat
  post_capture_counter :: nat
  current_incident_tag :: "incident_tag option"

definition new_camera_state :: "'i camera_state" where
  "new_camera_state = \<lparr>accident_counter = 0, frame_buffer = [], candidate_frames = [],
     last_alert_time = 0, post_capture_remaining = 0, post_capture_counter = 0,
     current_incident_tag = None\<rparr>"

definition get_camera_state ::
  "(string \<rightharpoonup> 'i camera_state) \<Rightarrow> string \<Rightarrow> (string \<rightharpoonup> 'i camera_state) \<times> 'i camera_state" where
  "get_camera_state camera_states camera_id =
     (case camera_states camera_id of
        None \<Rightarrow> (camera_states(camera_id \<mapsto> new_camera_state), new_camera_state)
      | Some st \<Rightarrow> (camera_states, st))"

text \<open>
  \<open>deque(maxlen=n).append(x)\<close>: a full deque drops its oldest (leftmost) item first; a
  deque of capacity 0 stays empty.
\<close>

definition deque_append :: "nat \<Rightarrow> 'a list \<Rightarrow> 'a \<Rightarrow> 'a list" where
  "deque_append maxlen d x =
     (if maxlen = 0 then d
      else if length d \<ge> maxlen then tl d @ [x]
      else d @ [x])"


section \<open>Live mode: what one request receives from outside\<close>

text \<open>
  \<open>int(incident_id)\<close> gives an integer, raises \<open>ValueError\<close> or \<open>TypeError\<close> (both
  caught next to the call), or raises something else (\<open>OverflowError\<close> for an infinite
  float), which only the handler around the whole reporting block catches.
\<close>

datatype int_conv = Conv int | ConvError | ConvRaise

text \<open>A JSON value as far as the endpoint inspects it: \<open>null\<close>, or a value given to \<open>int\<close>.\<close>

datatype jval = JNull | JVal int_conv

text \<open>
  What \<open>send_incident_to_backend\<close> returns: \<open>None\<close> when the request raised (backend
  unreachable, timeout, error status, body that is not JSON), else the parsed body: a
  dictionary (its items, keys distinct) or some other JSON value.
\<close>

datatype backend_reply = NoReply | NonDictReply bool | DictReply "(string \<times> jval) list"

text \<open>
  \<open>cv2.imdecode\<close> gives an image, gives \<open>None\<close> (bytes that are no image), or raises
  (an empty upload): the exception leaves the endpoint.
\<close>

datatype 'i decode_result = Decoded 'i | NotDecoded | DecodeRaised

text \<open>
  \<open>cv2.imwrite\<close> returns \<open>True\<close> when the file was written, returns \<open>False\<close> when
  it was not, or raises. The endpoint never looks at the returned value.
\<close>

datatype imwrite_result = Saved | NotSaved | WriteRaised

record 'i frame_input =
  in_img :: "'i decode_result"
  in_result :: yolo_result
  in_plot :: "'i option"
  in_now :: real
  in_post_write :: imwrite_result
  in_pre_write :: "nat \<Rightarrow> imwrite_result"
  in_main_write :: imwrite_result
  in_reply :: backend_reply

text \<open>
  \<open>in_img\<close>: what \<open>cv2.imdecode\<close> does with the upload.
  \<open>in_result\<close>: the detector's result for the image.
  \<open>in_plot\<close>: \<open>r.plot()\<close>, \<open>None\<close> when it raises.
  \<open>in_now\<close>: \<open>time.time()\<close>.
  \<open>in_post_write\<close>, \<open>in_main_write\<close>: what \<open>cv2.imwrite\<close> does with the
  post-accident and with the main snapshot.
  \<open>in_pre_write\<close>: what \<open>cv2.imwrite\<close> does with the pre-accident snapshot of a
  given index.
  \<open>in_reply\<close>: the backend's answer, read only when an incident is sent.
\<close>

text \<open>The image of a request whose upload decodes.\<close>

definition decoded :: "'i frame_input \<Rightarrow> 'i option" where
  "decoded inp = (case in_img inp of Decoded img \<Rightarrow> Some img | NotDecoded \<Rightarrow> None
     | DecodeRaised \<Rightarrow> None)"

text \<open>
  \<open>ServerError\<close> stands for the request that ends in an exception: the framework
  answers with status 500 and no response body (the two other fields of the record are
  then not sent).
\<close>

datatype response_message =
  CouldNotDecode | NoAccidentSmoothed | CooldownActive | LiveConfirmed severity | ServerError

record response =
  message :: response_message
  accidents_detected :: nat
  incident_ids :: "int list"

text \<open>
  The arguments of the call of \<open>send_incident_to_backend\<close>; the injury report is kept as
  the arguments \<open>build_expected_injury_report\<close> derives it from.
\<close>

record report_call =
  rep_camera_id :: string
  rep_severity :: severity
  rep_victims :: nat
  rep_snapshot_url :: "incident_tag option"
  rep_vehicle_type :: "string option"
  rep_collision_detected :: bool
  rep_person_count :: nat

text \<open>
  What one request does to the outside: the response, the snapshot files that were
  written (\<open>cv2.imwrite\<close> returned \<open>True\<close>), the report sent.
\<close>

record 'i frame_output =
  out_response :: response
  out_post_snapshot :: "(incident_tag \<times> nat \<times> 'i) option"
  out_pre_snapshots :: "(incident_tag \<times> nat \<times> 'i) list"
  out_main_snapshot :: "(incident_tag \<times> 'i) option"
  out_report :: "report_call option"


section \<open>Live mode: the steps of detect_accident\<close>

text \<open>
  Lines 291-303: the post-accident snapshot of the incident in progress. A write that
  raises leaves countdown and index as they were; a write that returns moves both,
  whether or not the file was written.
\<close>

definition post_capture ::
  "'i camera_state \<Rightarrow> 'i \<Rightarrow> imwrite_result \<Rightarrow>
   'i camera_state \<times> (incident_tag \<times> nat \<times> 'i) option" where
  "post_capture state img written =
     (if post_capture_remaining state > 0 then
        (case current_incident_tag state of
           None \<Rightarrow> (state, None)
         | Some tag \<Rightarrow>
             (let post_idx = post_capture_counter state;
                  moved = state\<lparr>post_capture_remaining := post_capture_remaining state - 1,
                                post_capture_counter := post_capture_counter state + 1\<rparr>
              in case written of
                   WriteRaised \<Rightarrow> (state, None)
                 | Saved \<Rightarrow> (moved, Some (tag, post_idx, img))
                 | NotSaved \<Rightarrow> (moved, None)))
      else (state, None))"

text \<open>Lines 366-387: the decisions on the scanned frame.\<close>

definition frame_accident :: "frame_score \<Rightarrow> bool" where
  "frame_accident fs =
     live_accident_detected_frame (fs_collision_detected fs) (vehicle_count (fs_counts fs))
       (person_count (fs_counts fs)) (total_danger_detections (fs_counts fs))"

definition frame_severity :: "frame_score \<Rightarrow> severity" where
  "frame_severity fs =
     live_severity (fs_collision_detected fs) (vehicle_count (fs_counts fs))
       (person_count (fs_counts fs))"

text \<open>Lines 391-408: the candidate entry of the current frame.\<close>

definition make_candidate :: "'i \<Rightarrow> 'i option \<Rightarrow> frame_score \<Rightarrow> 'i candidate" where
  "make_candidate img plot fs =
     (let severity = frame_severity fs;
          severity_score = severity_order severity;
          victims_estimated = live_victims_estimated (person_count (fs_counts fs));
          annotated_img = (case plot of Some a \<Rightarrow> a | None \<Rightarrow> img)
      in \<lparr>cand_severity = severity,
          cand_severity_score = severity_score,
          cand_overlap_ratio = fs_max_overlap_ratio fs,
          cand_victims_estimated = victims_estimated,
          cand_person_count = person_count (fs_counts fs),
          cand_collision_detected = fs_collision_detected fs,
          cand_primary_vehicle_type = primary_vehicle_type (fs_counts fs),
          cand_annotated_img = annotated_img\<rparr>)"

text \<open>Lines 389-411: the candidate pool and the streak counter.\<close>

definition accumulate :: "'i camera_state \<Rightarrow> 'i \<Rightarrow> 'i option \<Rightarrow> frame_score \<Rightarrow> 'i camera_state" where
  "accumulate state img plot fs =
     (if frame_accident fs then
        state\<lparr>candidate_frames :=
                 deque_append CANDIDATE_MAXLEN (candidate_frames state) (make_candidate img plot fs),
              accident_counter := accident_counter state + 1\<rparr>
      else state\<lparr>accident_counter := 0\<rparr>)"

text \<open>Lines 417-419: a last alert time of 0.0 is falsy and stands for "never alerted".\<close>

definition in_cooldown :: "real \<Rightarrow> real \<Rightarrow> bool" where
  "in_cooldown now_ts last_alert =
     (let time_since_last_alert = (if last_alert \<noteq> 0 then now_ts - last_alert else 9999)
      in time_since_last_alert < ALERT_COOLDOWN_SECONDS)"

text \<open>
  Lines 436-442: \<open>max(candidate_frames, key=lambda f: (f["severity_score"],
  f["overlap_ratio"]))\<close>. Python compares the key tuples lexicographically, and \<open>max\<close>
  replaces its current best only by a strictly greater item, so the first of several
  maximal items is returned.
\<close>

definition cand_key :: "'i candidate \<Rightarrow> nat \<times> real" where
  "cand_key f = (cand_severity_score f, cand_overlap_ratio f)"

definition tuple_gt :: "nat \<times> real \<Rightarrow> nat \<times> real \<Rightarrow> bool" where
  "tuple_gt a b = (fst a > fst b \<or> (fst a = fst b \<and> snd a > snd b))"

fun max_loop :: "'i candidate \<Rightarrow> 'i candidate list \<Rightarrow> 'i candidate" where
  "max_loop best [] = best"
| "max_loop best (f # rest) =
     (if tuple_gt (cand_key f) (cand_key best) then max_loop f rest else max_loop best rest)"

definition best_candidate :: "'i candidate list \<Rightarrow> 'i candidate option" where
  "best_candidate pool = (case pool of [] \<Rightarrow> None | f # rest \<Rightarrow> Some (max_loop f rest))"

text \<open>\<open>int(now_ts)\<close> truncates towards zero.\<close>

definition py_int :: "real \<Rightarrow> int" where
  "py_int x = (if x \<ge> 0 then \<lfloor>x\<rfloor> else \<lceil>x\<rceil>)"

text \<open>Lines 527-544: the incident id in the backend's answer.\<close>

definition lookup_incident_id :: "(string \<times> jval) list \<Rightarrow> jval" where
  "lookup_incident_id d =
     (case map_of d ''id'' of
        Some v \<Rightarrow> v
      | None \<Rightarrow>
          (case map_of d ''incidentId'' of
             Some v \<Rightarrow> v
           | None \<Rightarrow> (case map_of d ''incident_id'' of Some v \<Rightarrow> v | None \<Rightarrow> JNull)))"

text \<open>
  The reporting block up to the reset: \<open>Completed incident_ids accidents_detected\<close> when
  it runs through, \<open>Escaped\<close> when an exception leaves it for the handler of line 551
  (the lists are then still empty and the reset of lines 546-549 is skipped).
\<close>

datatype reply_outcome = Completed "int list" nat | Escaped

definition read_reply :: "backend_reply \<Rightarrow> reply_outcome" where
  "read_reply reply =
     (case reply of
        NoReply \<Rightarrow> Completed [] 0
      | NonDictReply truthy \<Rightarrow> Completed [] 0
      | DictReply d \<Rightarrow>
          if d = [] then Completed [] 0
          else (case lookup_incident_id d of
                  JNull \<Rightarrow> Completed [] 0
                | JVal (Conv n) \<Rightarrow> Completed [n] 1
                | JVal ConvError \<Rightarrow> Completed [] 0
                | JVal ConvRaise \<Rightarrow> Escaped))"

definition quiet_output ::
  "response_message \<Rightarrow> (incident_tag \<times> nat \<times> 'i) option \<Rightarrow> 'i frame_output" where
  "quiet_output msg post =
     \<lparr>out_response = \<lparr>message = msg, accidents_detected = 0, incident_ids = []\<rparr>,
      out_post_snapshot = post, out_pre_snapshots = [], out_main_snapshot = None,
      out_report = None\<rparr>"

text \<open>
  Lines 480-489: the pre-accident snapshots, written in one \<open>try\<close>: the first write that
  raises ends the loop.
\<close>

fun pre_loop ::
  "incident_tag \<Rightarrow> (nat \<Rightarrow> imwrite_result) \<Rightarrow> (nat \<times> 'i) list \<Rightarrow>
   (incident_tag \<times> nat \<times> 'i) list" where
  "pre_loop tag written [] = []"
| "pre_loop tag written ((idx, pre_img) # rest) =
     (case written idx of
        WriteRaised \<Rightarrow> []
      | Saved \<Rightarrow> (tag, idx, pre_img) # pre_loop tag written rest
      | NotSaved \<Rightarrow> pre_loop tag written rest)"

text \<open>
  Lines 436-558: a confirmed incident outside the cooldown. The snapshot URL is sent
  unless the write of the main snapshot raised.
\<close>

definition finalize ::
  "string \<Rightarrow> 'i camera_state \<Rightarrow> 'i \<Rightarrow> 'i frame_input \<Rightarrow> frame_score \<Rightarrow>
   (incident_tag \<times> nat \<times> 'i) option \<Rightarrow> 'i camera_state \<times> 'i frame_output" where
  "finalize camera_id state img inp fs post =
     (let now_ts = in_now inp;
          best = (case best_candidate (candidate_frames state) of
                    None \<Rightarrow> make_candidate img (in_plot inp) fs
                  | Some best_frame_data \<Rightarrow> best_frame_data);
          incident_tag = (camera_id, py_int now_ts);
          s1 = state\<lparr>current_incident_tag := Some incident_tag\<rparr>;
          pre_frames = drop (length (frame_buffer s1) - PRE_SNAPSHOT_COUNT) (frame_buffer s1);
          pre_saved = pre_loop incident_tag (in_pre_write inp) (List.enumerate 0 pre_frames);
          snapshot_url = (if in_main_write inp = WriteRaised then None else Some incident_tag);
          main_saved = (if in_main_write inp = Saved
                        then Some (incident_tag, cand_annotated_img best) else None);
          s2 = s1\<lparr>post_capture_remaining := POST_CAPTURE_FRAMES, post_capture_counter := 0\<rparr>;
          call = \<lparr>rep_camera_id = camera_id, rep_severity = cand_severity best,
                  rep_victims = cand_victims_estimated best, rep_snapshot_url = snapshot_url,
                  rep_vehicle_type = cand_primary_vehicle_type best,
                  rep_collision_detected = cand_collision_detected best,
                  rep_person_count = cand_person_count best\<rparr>
      in case read_reply (in_reply inp) of
           Completed ids detected \<Rightarrow>
             (s2\<lparr>last_alert_time := now_ts, accident_counter := 0, candidate_frames := []\<rparr>,
              \<lparr>out_response = \<lparr>message = LiveConfirmed (cand_severity best),
                                accidents_detected = detected, incident_ids = ids\<rparr>,
               out_post_snapshot = post, out_pre_snapshots = pre_saved,
               out_main_snapshot = main_saved, out_report = Some call\<rparr>)
         | Escaped \<Rightarrow>
             (s2,
              \<lparr>out_response = \<lparr>message = LiveConfirmed (cand_severity best),
                                accidents_detected = 0, incident_ids = []\<rparr>,
               out_post_snapshot = post, out_pre_snapshots = pre_saved,
               out_main_snapshot = main_saved, out_report = Some call\<rparr>))"

text \<open>Lines 287-558: one decoded frame on the state of its camera.\<close>

definition on_frame ::
  "string \<Rightarrow> 'i camera_state \<Rightarrow> 'i \<Rightarrow> 'i frame_input \<Rightarrow> 'i camera_state \<times> 'i frame_output" where
  "on_frame camera_id state0 img inp =
     (let s1 = state0\<lparr>frame_buffer := deque_append FRAME_BUFFER_SIZE (frame_buffer state0) img\<rparr>;
          (s2, post) = post_capture s1 img (in_post_write inp);
          fs = scan_frame (in_result inp);
          s3 = accumulate s2 img (in_plot inp) fs;
          final_decision = (accident_counter s3 \<ge> ACCIDENT_CONFIRM_FRAMES)
      in if \<not> final_decision then (s3, quiet_output NoAccidentSmoothed post)
         else if in_cooldown (in_now inp) (last_alert_time s3)
         then (s3, quiet_output CooldownActive post)
         else finalize camera_id s3 img inp fs post)"

text \<open>
  One request on one camera's state: an upload that does not decode is answered, and one
  whose decoding raises ends the request, before the state is touched.
\<close>

definition live_step ::
  "string \<Rightarrow> 'i camera_state \<Rightarrow> 'i frame_input \<Rightarrow> 'i camera_state \<times> 'i frame_output" where
  "live_step camera_id state inp =
     (case in_img inp of
        DecodeRaised \<Rightarrow> (state, quiet_output ServerError None)
      | NotDecoded \<Rightarrow> (state, quiet_output CouldNotDecode None)
      | Decoded img \<Rightarrow> on_frame camera_id state img inp)"

text \<open>The endpoint on the table of all cameras.\<close>

definition detect_accident ::
  "(string \<rightharpoonup> 'i camera_state) \<Rightarrow> string \<Rightarrow> 'i frame_input \<Rightarrow>
   (string \<rightharpoonup> 'i camera_state) \<times> 'i frame_output" where
  "detect_accident camera_states camera_id inp =
     (case in_img inp of
        DecodeRaised \<Rightarrow> (camera_states, quiet_output ServerError None)
      | NotDecoded \<Rightarrow> (camera_states, quiet_output CouldNotDecode None)
      | Decoded img \<Rightarrow>
          (let (cs1, state) = get_camera_state camera_states camera_id;
               (state', out) = on_frame camera_id state img inp
           in (cs1(camera_id \<mapsto> state'), out)))"

text \<open>The requests of one camera, in arrival order.\<close>

fun run_frames ::
  "string \<Rightarrow> 'i camera_state \<Rightarrow> 'i frame_input list \<Rightarrow> 'i camera_state \<times> 'i frame_output list" where
  "run_frames camera_id state [] = (state, [])"
| "run_frames camera_id state (inp # rest) =
     (let (s1, out) = live_step camera_id state inp;
          (s2, outs) = run_frames camera_id s1 rest
      in (s2, out # outs))"

text \<open>A frame that decodes and is accident-flagged; one that decodes and is not.\<close>

definition flagged :: "'i frame_input \<Rightarrow> bool" where
  "flagged inp = (decoded inp \<noteq> None \<and> frame_accident (scan_frame (in_result inp)))"

definition unflagged :: "'i frame_input \<Rightarrow> bool" where
  "unflagged inp = (decoded inp \<noteq> None \<and> \<not> frame_accident (scan_frame (in_result inp)))"

text \<open>The incident reports among the outputs of a run.\<close>

definition reports :: "'i frame_output list \<Rightarrow> report_call list" where
  "reports outs = concat (map (\<lambda>out. case out_report out of None \<Rightarrow> [] | Some c \<Rightarrow> [c]) outs)"

text \<open>
  The state after the bookkeeping of lines 289-411 (frame buffer, post-accident snapshot,
  candidate pool, streak counter), and the post-accident snapshot written on the way.
\<close>

definition booked :: "'i camera_state \<Rightarrow> 'i \<Rightarrow> 'i frame_input \<Rightarrow> 'i camera_state" where
  "booked state0 img inp =
     accumulate
       (fst (post_capture
               (state0\<lparr>frame_buffer := deque_append FRAME_BUFFER_SIZE (frame_buffer state0) img\<rparr>)
               img (in_post_write inp)))
       img (in_plot inp) (scan_frame (in_result inp))"

definition post_of :: "'i camera_state \<Rightarrow> 'i \<Rightarrow> 'i frame_input \<Rightarrow> (incident_tag \<times> nat \<times> 'i) option" where
  "post_of state0 img inp =
     snd (post_capture
               (state0\<lparr>frame_buffer := deque_append FRAME_BUFFER_SIZE (frame_buffer state0) img\<rparr>)
               img (in_post_write inp))"


section \<open>Observations on requests and runs\<close>


text \<open>The post-accident snapshots written during a run, in the order they were written.\<close>

definition post_snapshots :: "'i frame_output list \<Rightarrow> (incident_tag \<times> nat \<times> 'i) list" where
  "post_snapshots outs =
     concat (map (\<lambda>out. case out_post_snapshot out of None \<Rightarrow> [] | Some x \<Rightarrow> [x]) outs)"

text \<open>
  The image a request gives to the post-accident capture: the decoded frame, when
  \<open>cv2.imwrite\<close> writes it.
\<close>

definition persistable :: "'i frame_input \<Rightarrow> 'i list" where
  "persistable inp =
     (case decoded inp of
        None \<Rightarrow> []
      | Some img \<Rightarrow> if in_post_write inp = Saved then [img] else [])"

text \<open>Images numbered from \<open>k\<close> on under one incident tag, as the file names number them.\<close>

definition numbered :: "incident_tag \<Rightarrow> nat \<Rightarrow> 'i list \<Rightarrow> (incident_tag \<times> nat \<times> 'i) list" where
  "numbered tag k imgs = map (\<lambda>(idx, img). (tag, idx, img)) (List.enumerate k imgs)"



section \<open>Sample inputs\<close>

text \<open>
  A frame with a person and a car whose boxes overlap (accident-flagged, MAJOR), and a
  frame with no detection; every snapshot is written and the backend answers with an id.
\<close>

definition sample_names :: "int \<rightharpoonup> string" where
  "sample_names = [0 \<mapsto> ''person'', 2 \<mapsto> ''car'']"

definition crash_result :: yolo_result where
  "crash_result = \<lparr>res_names = sample_names,
     res_boxes = Some [\<lparr>box_cls = 0, box_conf = 9 / 10, box_xyxy = (0, 0, 10, 10)\<rparr>,
                       \<lparr>box_cls = 2, box_conf = 8 / 10, box_xyxy = (5, 5, 20, 20)\<rparr>]\<rparr>"

definition clear_result :: yolo_result where
  "clear_result = \<lparr>res_names = sample_names, res_boxes = Some []\<rparr>"

definition sample_frame :: "nat \<Rightarrow> real \<Rightarrow> yolo_result \<Rightarrow> nat frame_input" where
  "sample_frame i t r = \<lparr>in_img = Decoded i, in_result = r, in_plot = Some (1000 + i),
     in_now = t, in_post_write = Saved, in_pre_write = (\<lambda>idx. Saved), in_main_write = Saved,
     in_reply = DictReply [(''id'', JVal (Conv 1))]\<rparr>"

text \<open>A candidate entry with a given severity, overlap ratio and image.\<close>

definition sample_candidate :: "severity \<Rightarrow> real \<Rightarrow> nat \<Rightarrow> nat candidate" where
  "sample_candidate sev ratio img =
     \<lparr>cand_severity = sev, cand_severity_score = severity_order sev,
      cand_overlap_ratio = ratio, cand_victims_estimated = 1, cand_person_count = 1,
      cand_collision_detected = True, cand_primary_vehicle_type = Some ''car'',
      cand_annotated_img = img\<rparr>"


section \<open>Facts about one request\<close>

lemma live_step_decoded:
  "live_step cam st inp =
     (case decoded inp of
        Some img \<Rightarrow> on_frame cam st img inp
      | None \<Rightarrow>
          (st, quiet_output (if in_img inp = DecodeRaised then ServerError else CouldNotDecode)
                 None))"
  by (simp add: live_step_def decoded_def split: decode_result.splits)

lemma post_capture_keeps:
  "accident_counter (fst (post_capture s img ok)) = accident_counter s"
  "candidate_frames (fst (post_capture s img ok)) = candidate_frames s"
  "last_alert_time (fst (post_capture s img ok)) = last_alert_time s"
  "frame_buffer (fst (post_capture s img ok)) = frame_buffer s"
  "current_incident_tag (fst (post_capture s img ok)) = current_incident_tag s"
  by (simp_all add: post_capture_def Let_def split: option.splits imwrite_result.splits)

lemma on_frame_booked:
  "on_frame cam st img inp =
     (if \<not> accident_counter (booked st img inp) \<ge> ACCIDENT_CONFIRM_FRAMES
      then (booked st img inp, quiet_output NoAccidentSmoothed (post_of st img inp))
      else if in_cooldown (in_now inp) (last_alert_time (booked st img inp))
      then (booked st img inp, quiet_output CooldownActive (post_of st img inp))
      else finalize cam (booked st img inp) img inp (scan_frame (in_result inp)) (post_of st img inp))"
  by (simp add: on_frame_def booked_def post_of_def Let_def split: prod.splits)

lemma booked_fields:
  "accident_counter (booked st img inp) =
     (if frame_accident (scan_frame (in_result inp)) then accident_counter st + 1 else 0)"
  "candidate_frames (booked st img inp) =
     (if frame_accident (scan_frame (in_result inp))
      then deque_append CANDIDATE_MAXLEN (candidate_frames st)
             (make_candidate img (in_plot inp) (scan_frame (in_result inp)))
      else candidate_frames st)"
  "last_alert_time (booked st img inp) = last_alert_time st"
  by (simp_all add: booked_def accumulate_def post_capture_keeps)

lemma finalize_report: "out_report (snd (finalize cam s img inp fs post)) \<noteq> None"
  by (simp add: finalize_def Let_def split: reply_outcome.splits)

lemma finalize_post: "out_post_snapshot (snd (finalize cam s img inp fs post)) = post"
  by (simp add: finalize_def Let_def split: reply_outcome.splits)

lemma finalize_armed:
  "post_capture_remaining (fst (finalize cam s img inp fs post)) = POST_CAPTURE_FRAMES"
  "post_capture_counter (fst (finalize cam s img inp fs post)) = 0"
  "current_incident_tag (fst (finalize cam s img inp fs post)) = Some (cam, py_int (in_now inp))"
  by (simp_all add: finalize_def Let_def split: reply_outcome.splits)

lemma finalize_completed:
  assumes "read_reply (in_reply inp) = Completed ids detected"
  shows "accident_counter (fst (finalize cam s img inp fs post)) = 0"
    and "candidate_frames (fst (finalize cam s img inp fs post)) = []"
    and "last_alert_time (fst (finalize cam s img inp fs post)) = in_now inp"
    and "accidents_detected (out_response (snd (finalize cam s img inp fs post))) = detected"
    and "incident_ids (out_response (snd (finalize cam s img inp fs post))) = ids"
  using assms by (simp_all add: finalize_def Let_def)

lemma finalize_escaped:
  assumes "read_reply (in_reply inp) = Escaped"
  shows "accident_counter (fst (finalize cam s img inp fs post)) = accident_counter s"
    and "candidate_frames (fst (finalize cam s img inp fs post)) = candidate_frames s"
    and "last_alert_time (fst (finalize cam s img inp fs post)) = last_alert_time s"
  using assms by (simp_all add: finalize_def Let_def)

lemma quiet_report: "out_report (quiet_output m p) = None"
  by (simp add: quiet_output_def)

lemma reports_Nil: "reports [] = []"
  by (simp add: reports_def)

lemma reports_Cons:
  "reports (out # outs) = (case out_report out of None \<Rightarrow> [] | Some c \<Rightarrow> [c]) @ reports outs"
  by (simp add: reports_def)

lemma reports_append: "reports (xs @ ys) = reports xs @ reports ys"
  by (simp add: reports_def)

lemma reports_Cons_empty:
  "reports (out # outs) = [] \<longleftrightarrow> out_report out = None \<and> reports outs = []"
  by (simp add: reports_Cons split: option.splits)


lemma in_cooldown_never: "\<not> in_cooldown now_ts 0"
  by (simp add: in_cooldown_def ALERT_COOLDOWN_SECONDS_def)

lemma step_undecodable:
  "decoded inp = None \<Longrightarrow>
     live_step cam st inp
       = (st, quiet_output (if in_img inp = DecodeRaised then ServerError else CouldNotDecode) None)"
  by (simp add: live_step_decoded)

lemma step_unflagged:
  assumes "unflagged inp"
  shows "accident_counter (fst (live_step cam st inp)) = 0"
    and "candidate_frames (fst (live_step cam st inp)) = candidate_frames st"
    and "last_alert_time (fst (live_step cam st inp)) = last_alert_time st"
    and "out_report (snd (live_step cam st inp)) = None"
  using assms
  by (auto simp: unflagged_def live_step_decoded on_frame_booked booked_fields
      ACCIDENT_CONFIRM_FRAMES_def quiet_report)

lemma step_flagged_below:
  assumes "flagged inp" and "accident_counter st + 1 < ACCIDENT_CONFIRM_FRAMES"
  shows "accident_counter (fst (live_step cam st inp)) = accident_counter st + 1"
    and "last_alert_time (fst (live_step cam st inp)) = last_alert_time st"
    and "out_report (snd (live_step cam st inp)) = None"
  using assms
  by (auto simp: flagged_def live_step_decoded on_frame_booked booked_fields quiet_report)


lemma step_flagged_final:
  assumes "flagged inp" and "ACCIDENT_CONFIRM_FRAMES \<le> accident_counter st + 1"
    and "\<not> in_cooldown (in_now inp) (last_alert_time st)"
  shows "out_report (snd (live_step cam st inp)) \<noteq> None"
    and "read_reply (in_reply inp) \<noteq> Escaped \<Longrightarrow> accident_counter (fst (live_step cam st inp)) = 0"
    and "read_reply (in_reply inp) \<noteq> Escaped \<Longrightarrow> last_alert_time (fst (live_step cam st inp)) = in_now inp"
    and "read_reply (in_reply inp) \<noteq> Escaped \<Longrightarrow> candidate_frames (fst (live_step cam st inp)) = []"
proof -
  from assms(1) obtain img where img: "decoded inp = Some img"
    and acc: "frame_accident (scan_frame (in_result inp))"
    by (auto simp: flagged_def)
  have step: "live_step cam st inp =
      finalize cam (booked st img inp) img inp (scan_frame (in_result inp)) (post_of st img inp)"
    using assms(2,3) acc by (simp add: live_step_decoded img on_frame_booked booked_fields)
  show "out_report (snd (live_step cam st inp)) \<noteq> None"
    by (simp add: step finalize_report)
  {
    assume "read_reply (in_reply inp) \<noteq> Escaped"
    then obtain ids d where c: "read_reply (in_reply inp) = Completed ids d"
      by (cases "read_reply (in_reply inp)") auto
    show "accident_counter (fst (live_step cam st inp)) = 0"
      by (simp add: step finalize_completed [OF c])
    show "last_alert_time (fst (live_step cam st inp)) = in_now inp"
      by (simp add: step finalize_completed [OF c])
    show "candidate_frames (fst (live_step cam st inp)) = []"
      by (simp add: step finalize_completed [OF c])
  }
qed


lemma step_not_flagged:
  assumes "\<not> flagged inp" and "accident_counter st = 0"
  shows "accident_counter (fst (live_step cam st inp)) = 0"
    and "last_alert_time (fst (live_step cam st inp)) = last_alert_time st"
    and "out_report (snd (live_step cam st inp)) = None"
proof -
  consider "decoded inp = None" | "unflagged inp"
    using assms(1) by (auto simp: flagged_def unflagged_def)
  then have "accident_counter (fst (live_step cam st inp)) = 0
    \<and> last_alert_time (fst (live_step cam st inp)) = last_alert_time st
    \<and> out_report (snd (live_step cam st inp)) = None"
  proof cases
    case 1
    then show ?thesis using assms(2) by (simp add: step_undecodable quiet_report)
  next
    case 2
    then show ?thesis by (simp add: step_unflagged)
  qed
  then show "accident_counter (fst (live_step cam st inp)) = 0"
    and "last_alert_time (fst (live_step cam st inp)) = last_alert_time st"
    and "out_report (snd (live_step cam st inp)) = None"
    by simp_all
qed


lemma booked_post_fields:
  "post_capture_remaining (booked st img inp) =
     (if 0 < post_capture_remaining st \<and> current_incident_tag st \<noteq> None
           \<and> in_post_write inp \<noteq> WriteRaised
      then post_capture_remaining st - 1 else post_capture_remaining st)"
  "post_capture_counter (booked st img inp) =
     (if 0 < post_capture_remaining st \<and> current_incident_tag st \<noteq> None
           \<and> in_post_write inp \<noteq> WriteRaised
      then post_capture_counter st + 1 else post_capture_counter st)"
  "current_incident_tag (booked st img inp) = current_incident_tag st"
  by (auto simp: booked_def accumulate_def post_capture_def Let_def
      split: option.splits imwrite_result.splits)

lemma post_of_eq:
  "post_of st img inp =
     (case current_incident_tag st of
        None \<Rightarrow> None
      | Some tag \<Rightarrow>
          if 0 < post_capture_remaining st \<and> in_post_write inp = Saved
          then Some (tag, post_capture_counter st, img) else None)"
  by (auto simp: post_of_def post_capture_def Let_def split: option.splits imwrite_result.splits)

lemma step_quiet:
  assumes "out_report (snd (live_step cam st inp)) = None" and "decoded inp = Some img"
  shows "fst (live_step cam st inp) = booked st img inp"
    and "out_post_snapshot (snd (live_step cam st inp)) = post_of st img inp"
  using assms
  by (auto simp: live_step_decoded on_frame_booked finalize_report quiet_output_def
      split: if_splits)

lemma step_post:
  "decoded inp = Some img \<Longrightarrow> out_post_snapshot (snd (live_step cam st inp)) = post_of st img inp"
  by (simp add: live_step_decoded on_frame_booked finalize_post quiet_output_def)

lemma step_reported:
  assumes "out_report (snd (live_step cam st inp)) \<noteq> None"
  shows "\<exists>img. decoded inp = Some img \<and> frame_accident (scan_frame (in_result inp))
           \<and> live_step cam st inp
               = finalize cam (booked st img inp) img inp (scan_frame (in_result inp))
                   (post_of st img inp)"
proof (cases "decoded inp")
  case None
  then show ?thesis using assms by (simp add: step_undecodable quiet_report)
next
  case (Some img)
  have fin: "live_step cam st inp
      = finalize cam (booked st img inp) img inp (scan_frame (in_result inp)) (post_of st img inp)"
    and thr: "ACCIDENT_CONFIRM_FRAMES \<le> accident_counter (booked st img inp)"
    using assms Some
    by (auto simp: live_step_decoded on_frame_booked quiet_report split: if_splits)
  have "frame_accident (scan_frame (in_result inp))"
    using thr by (auto simp: booked_fields ACCIDENT_CONFIRM_FRAMES_def split: if_splits)
  then show ?thesis using Some fin by simp
qed

lemma step_reported_armed:
  assumes "out_report (snd (live_step cam st inp)) \<noteq> None"
  shows "post_capture_remaining (fst (live_step cam st inp)) = POST_CAPTURE_FRAMES"
    and "post_capture_counter (fst (live_step cam st inp)) = 0"
    and "current_incident_tag (fst (live_step cam st inp)) = Some (cam, py_int (in_now inp))"
  using step_reported [OF assms] by (auto simp: finalize_armed)


text \<open>
  The endpoint is the step of one camera on its entry of the table; the other entries
  stay as they are.
\<close>

lemma detect_accident_live_step:
  "detect_accident camera_states camera_id inp =
     (case decoded inp of
        None \<Rightarrow>
          (camera_states,
           snd (live_step camera_id
                  (case camera_states camera_id of None \<Rightarrow> new_camera_state | Some st \<Rightarrow> st)
                  inp))
      | Some img \<Rightarrow>
          (camera_states
             (camera_id \<mapsto>
                fst (live_step camera_id
                       (case camera_states camera_id of None \<Rightarrow> new_camera_state | Some st \<Rightarrow> st)
                       inp)),
           snd (live_step camera_id
                  (case camera_states camera_id of None \<Rightarrow> new_camera_state | Some st \<Rightarrow> st)
                  inp)))"
  by (simp add: detect_accident_def get_camera_state_def live_step_def decoded_def
      case_prod_beta split: option.splits decode_result.splits)

lemma detect_accident_other_cameras:
  "other \<noteq> camera_id \<Longrightarrow>
     fst (detect_accident camera_states camera_id inp) other = camera_states other"
  by (simp add: detect_accident_live_step split: option.splits)


section \<open>Facts about the bounded pool\<close>





lemma length_deque_append:
  "length d \<le> n \<Longrightarrow> length (deque_append n d x) \<le> n"
  by (cases d) (auto simp: deque_append_def)

lemma set_deque_append: "set (deque_append n d x) \<subseteq> insert x (set d)"
  by (cases d) (auto simp: deque_append_def)






lemma make_candidate_score:
  "cand_severity_score (make_candidate img plot fs)
     = severity_order (cand_severity (make_candidate img plot fs))"
  by (simp add: make_candidate_def Let_def)

lemma step_pool_scores:
  assumes "\<forall>f\<in>set (candidate_frames st). cand_severity_score f = severity_order (cand_severity f)"
  shows "\<forall>f\<in>set (candidate_frames (fst (live_step cam st inp))).
           cand_severity_score f = severity_order (cand_severity f)"
proof (cases "decoded inp")
  case None
  then show ?thesis using assms by (simp add: step_undecodable)
next
  case (Some img)
  have b: "\<forall>f\<in>set (candidate_frames (booked st img inp)).
           cand_severity_score f = severity_order (cand_severity f)"
    using assms set_deque_append [of CANDIDATE_MAXLEN "candidate_frames st"
        "make_candidate img (in_plot inp) (scan_frame (in_result inp))"]
    by (auto simp: booked_fields make_candidate_score)
  show ?thesis
  proof (cases "out_report (snd (live_step cam st inp))")
    case None
    show ?thesis using b by (simp add: step_quiet(1) [OF None Some])
  next
    case (Some call)
    then have "out_report (snd (live_step cam st inp)) \<noteq> None" by simp
    from step_reported [OF this] obtain img' where img': "decoded inp = Some img'"
      and fin: "live_step cam st inp
               = finalize cam (booked st img' inp) img' inp (scan_frame (in_result inp))
                   (post_of st img' inp)"
      by blast
    have same: "img' = img" using img' \<open>decoded inp = Some img\<close> by simp
    show ?thesis
    proof (cases "read_reply (in_reply inp)")
      case (Completed ids d)
      then show ?thesis by (simp add: fin finalize_completed)
    next
      case Escaped
      then show ?thesis using b same by (simp add: fin finalize_escaped)
    qed
  qed
qed


section \<open>Facts about the numbering of snapshots\<close>

lemma numbered_Nil: "numbered tag k [] = []"
  by (simp add: numbered_def)

lemma numbered_Cons: "numbered tag k (x # xs) = (tag, k, x) # numbered tag (Suc k) xs"
  by (simp add: numbered_def)

lemma numbered_append:
  "numbered tag k (xs @ ys) = numbered tag k xs @ numbered tag (k + length xs) ys"
  by (induction xs arbitrary: k) (simp_all add: numbered_Nil numbered_Cons)

lemma length_numbered: "length (numbered tag k imgs) = length imgs"
  by (simp add: numbered_def)

lemma post_snapshots_Nil: "post_snapshots [] = []"
  by (simp add: post_snapshots_def)

lemma post_snapshots_Cons:
  "post_snapshots (out # outs) =
     (case out_post_snapshot out of None \<Rightarrow> [] | Some x \<Rightarrow> [x]) @ post_snapshots outs"
  by (simp add: post_snapshots_def)

lemma post_snapshots_append: "post_snapshots (xs @ ys) = post_snapshots xs @ post_snapshots ys"
  by (simp add: post_snapshots_def)

lemma step_quiet_drain:
  assumes "out_report (snd (live_step cam st inp)) = None"
    and "current_incident_tag st = Some tag"
    and "in_post_write inp \<noteq> NotSaved"
  shows "(case out_post_snapshot (snd (live_step cam st inp)) of None \<Rightarrow> [] | Some x \<Rightarrow> [x])
           = numbered tag (post_capture_counter st)
               (take (post_capture_remaining st) (persistable inp))"
    and "post_capture_remaining (fst (live_step cam st inp))
           = post_capture_remaining st
               - length (take (post_capture_remaining st) (persistable inp))"
    and "post_capture_counter (fst (live_step cam st inp))
           = post_capture_counter st
               + length (take (post_capture_remaining st) (persistable inp))"
    and "current_incident_tag (fst (live_step cam st inp)) = Some tag"
proof -
  have all: "(case out_post_snapshot (snd (live_step cam st inp)) of None \<Rightarrow> [] | Some x \<Rightarrow> [x])
           = numbered tag (post_capture_counter st)
               (take (post_capture_remaining st) (persistable inp))
    \<and> post_capture_remaining (fst (live_step cam st inp))
           = post_capture_remaining st
               - length (take (post_capture_remaining st) (persistable inp))
    \<and> post_capture_counter (fst (live_step cam st inp))
           = post_capture_counter st
               + length (take (post_capture_remaining st) (persistable inp))
    \<and> current_incident_tag (fst (live_step cam st inp)) = Some tag"
  proof (cases "decoded inp")
    case None
    then show ?thesis
      using assms(2)
      by (simp add: step_undecodable persistable_def quiet_output_def numbered_Nil)
  next
    case (Some img)
    note q = step_quiet [OF assms(1) Some]
    show ?thesis
    proof (cases "post_capture_remaining st")
      case 0
      then show ?thesis
        using assms(2) Some
        by (simp add: q booked_post_fields post_of_eq persistable_def numbered_Nil)
    next
      case (Suc r)
      then show ?thesis
        using assms(2,3) Some
        by (cases "in_post_write inp")
          (simp_all add: q booked_post_fields post_of_eq persistable_def numbered_Nil
            numbered_Cons)
    qed
  qed
  from all show "(case out_post_snapshot (snd (live_step cam st inp)) of None \<Rightarrow> [] | Some x \<Rightarrow> [x])
           = numbered tag (post_capture_counter st)
               (take (post_capture_remaining st) (persistable inp))"
    and "post_capture_remaining (fst (live_step cam st inp))
           = post_capture_remaining st
               - length (take (post_capture_remaining st) (persistable inp))"
    and "post_capture_counter (fst (live_step cam st inp))
           = post_capture_counter st
               + length (take (post_capture_remaining st) (persistable inp))"
    and "current_incident_tag (fst (live_step cam st inp)) = Some tag"
    by simp_all
qed


section \<open>Facts about a run of requests\<close>

lemma run_frames_Cons:
  "run_frames cam st (f # fs) =
     (fst (run_frames cam (fst (live_step cam st f)) fs),
      snd (live_step cam st f) # snd (run_frames cam (fst (live_step cam st f)) fs))"
  by (simp add: Let_def case_prod_beta)

declare run_frames.simps(2) [simp del]

declare run_frames_Cons [simp]

lemma run_frames_app:
  "run_frames cam st (xs @ ys) =
     (fst (run_frames cam (fst (run_frames cam st xs)) ys),
      snd (run_frames cam st xs) @ snd (run_frames cam (fst (run_frames cam st xs)) ys))"
  by (induction xs arbitrary: st) simp_all

lemma run_frames_snoc:
  "run_frames cam st (xs @ [x]) =
     (fst (live_step cam (fst (run_frames cam st xs)) x),
      snd (run_frames cam st xs) @ [snd (live_step cam (fst (run_frames cam st xs)) x)])"
  by (simp add: run_frames_app)

lemma run_flagged_below:
  assumes "\<forall>f\<in>set fs. flagged f"
    and "accident_counter st + length fs < ACCIDENT_CONFIRM_FRAMES"
  shows "accident_counter (fst (run_frames cam st fs)) = accident_counter st + length fs
       \<and> last_alert_time (fst (run_frames cam st fs)) = last_alert_time st
       \<and> reports (snd (run_frames cam st fs)) = []"
  using assms
proof (induction fs arbitrary: st)
  case Nil
  then show ?case by (simp add: reports_Nil)
next
  case (Cons f fs)
  let ?s1 = "fst (live_step cam st f)"
  have f: "flagged f" and below: "accident_counter st + 1 < ACCIDENT_CONFIRM_FRAMES"
    using Cons.prems by auto
  note st1 = step_flagged_below [OF f below, of cam]
  have "accident_counter ?s1 + length fs < ACCIDENT_CONFIRM_FRAMES"
    using Cons.prems st1(1) by simp
  with Cons.IH [of ?s1] Cons.prems(1)
  have ih: "accident_counter (fst (run_frames cam ?s1 fs)) = accident_counter ?s1 + length fs
       \<and> last_alert_time (fst (run_frames cam ?s1 fs)) = last_alert_time ?s1
       \<and> reports (snd (run_frames cam ?s1 fs)) = []"
    by simp
  show ?case
    using ih st1 by (simp add: reports_Cons)
qed

lemma run_not_flagged:
  assumes "\<forall>g\<in>set gap. \<not> flagged g" and "accident_counter st = 0"
  shows "accident_counter (fst (run_frames cam st gap)) = 0
       \<and> last_alert_time (fst (run_frames cam st gap)) = last_alert_time st
       \<and> reports (snd (run_frames cam st gap)) = []"
  using assms
proof (induction gap arbitrary: st)
  case Nil
  then show ?case by (simp add: reports_Nil)
next
  case (Cons g gap)
  have g: "\<not> flagged g" using Cons.prems by simp
  note s = step_not_flagged [OF g Cons.prems(2), of cam]
  from Cons.IH [of "fst (live_step cam st g)"] Cons.prems(1) s(1)
  have "accident_counter (fst (run_frames cam (fst (live_step cam st g)) gap)) = 0
       \<and> last_alert_time (fst (run_frames cam (fst (live_step cam st g)) gap))
           = last_alert_time (fst (live_step cam st g))
       \<and> reports (snd (run_frames cam (fst (live_step cam st g)) gap)) = []"
    by simp
  then show ?case using s by (simp add: reports_Cons)
qed


lemma run_streak_prefix:
  assumes "accident_counter st = 0" and "\<forall>f\<in>set fs. flagged f"
    and "length fs = ACCIDENT_CONFIRM_FRAMES"
  shows "fs = butlast fs @ [last fs]"
    and "flagged (last fs)"
    and "accident_counter (fst (run_frames cam st (butlast fs))) + 1 = ACCIDENT_CONFIRM_FRAMES"
    and "last_alert_time (fst (run_frames cam st (butlast fs))) = last_alert_time st"
    and "reports (snd (run_frames cam st (butlast fs))) = []"
proof -
  from assms(3) have ne: "fs \<noteq> []" by (auto simp: ACCIDENT_CONFIRM_FRAMES_def)
  then show "fs = butlast fs @ [last fs]" by simp
  show "flagged (last fs)" using assms(2) ne by simp
  have fl': "\<forall>f\<in>set (butlast fs). flagged f"
    using assms(2) by (meson in_set_butlastD)
  have len: "length (butlast fs) = ACCIDENT_CONFIRM_FRAMES - 1" using assms(3) by simp
  then have "accident_counter st + length (butlast fs) < ACCIDENT_CONFIRM_FRAMES"
    using assms(1) by (simp add: ACCIDENT_CONFIRM_FRAMES_def)
  from run_flagged_below [OF fl' this, of cam]
  show "accident_counter (fst (run_frames cam st (butlast fs))) + 1 = ACCIDENT_CONFIRM_FRAMES"
    and "last_alert_time (fst (run_frames cam st (butlast fs))) = last_alert_time st"
    and "reports (snd (run_frames cam st (butlast fs))) = []"
    using len assms(1) by (simp_all add: ACCIDENT_CONFIRM_FRAMES_def)
qed

lemma run_streak_reported:
  assumes "accident_counter st = 0" and "\<forall>f\<in>set fs. flagged f"
    and "length fs = ACCIDENT_CONFIRM_FRAMES"
    and "\<not> in_cooldown (in_now (last fs)) (last_alert_time st)"
  shows "length (reports (snd (run_frames cam st fs))) = 1"
    and "read_reply (in_reply (last fs)) \<noteq> Escaped \<Longrightarrow>
           accident_counter (fst (run_frames cam st fs)) = 0
           \<and> last_alert_time (fst (run_frames cam st fs)) = in_now (last fs)"
proof -
  note p = run_streak_prefix [OF assms(1,2,3)]
  let ?s = "fst (run_frames cam st (butlast fs))"
  have thr: "ACCIDENT_CONFIRM_FRAMES \<le> accident_counter ?s + 1" using p(3) by simp
  have cool: "\<not> in_cooldown (in_now (last fs)) (last_alert_time ?s)"
    using assms(4) p(4) by simp
  note fin = step_flagged_final [OF p(2) thr cool, of cam]
  have run: "run_frames cam st fs =
     (fst (live_step cam ?s (last fs)),
      snd (run_frames cam st (butlast fs)) @ [snd (live_step cam ?s (last fs))])"
    using run_frames_snoc [of cam st "butlast fs" "last fs"] p(1) by simp
  from fin(1) obtain call where "out_report (snd (live_step cam ?s (last fs))) = Some call"
    by auto
  then show "length (reports (snd (run_frames cam st fs))) = 1"
    using p(5) by (simp add: run reports_append reports_Cons reports_Nil)
  show "accident_counter (fst (run_frames cam st fs)) = 0
           \<and> last_alert_time (fst (run_frames cam st fs)) = in_now (last fs)"
    if "read_reply (in_reply (last fs)) \<noteq> Escaped"
    using fin(2,3) that by (simp add: run)
qed


lemma run_streak_armed:
  assumes "accident_counter st = 0" and "\<forall>f\<in>set fs. flagged f"
    and "length fs = ACCIDENT_CONFIRM_FRAMES"
    and "\<not> in_cooldown (in_now (last fs)) (last_alert_time st)"
  shows "post_capture_remaining (fst (run_frames cam st fs)) = POST_CAPTURE_FRAMES"
    and "post_capture_counter (fst (run_frames cam st fs)) = 0"
    and "current_incident_tag (fst (run_frames cam st fs)) = Some (cam, py_int (in_now (last fs)))"
proof -
  note p = run_streak_prefix [OF assms(1,2,3)]
  let ?s = "fst (run_frames cam st (butlast fs))"
  have thr: "ACCIDENT_CONFIRM_FRAMES \<le> accident_counter ?s + 1" using p(3) by simp
  have cool: "\<not> in_cooldown (in_now (last fs)) (last_alert_time ?s)"
    using assms(4) p(4) by simp
  note fin = step_flagged_final(1) [OF p(2) thr cool, of cam]
  have run: "fst (run_frames cam st fs) = fst (live_step cam ?s (last fs))"
    using run_frames_snoc [of cam st "butlast fs" "last fs"] p(1) by simp
  show "post_capture_remaining (fst (run_frames cam st fs)) = POST_CAPTURE_FRAMES"
    and "post_capture_counter (fst (run_frames cam st fs)) = 0"
    and "current_incident_tag (fst (run_frames cam st fs)) = Some (cam, py_int (in_now (last fs)))"
    using step_reported_armed [OF fin] by (simp_all add: run)
qed

text \<open>
  A write that returns \<open>False\<close> takes the next index and a step of the countdown, and
  leaves no file.
\<close>

lemma step_unsaved_post:
  assumes "out_report (snd (live_step cam st inp)) = None"
    and "decoded inp = Some img" and "current_incident_tag st = Some tag"
    and "0 < post_capture_remaining st" and "in_post_write inp = NotSaved"
  shows "out_post_snapshot (snd (live_step cam st inp)) = None"
    and "post_capture_remaining (fst (live_step cam st inp)) = post_capture_remaining st - 1"
    and "post_capture_counter (fst (live_step cam st inp)) = post_capture_counter st + 1"
  using assms(3,4,5)
  by (simp_all add: step_quiet [OF assms(1,2)] booked_post_fields post_of_eq)

lemma run_quiet_drain:
  assumes "reports (snd (run_frames cam st fs)) = []"
    and "current_incident_tag st = Some tag"
    and "\<forall>f\<in>set fs. in_post_write f \<noteq> NotSaved"
  shows "post_snapshots (snd (run_frames cam st fs))
           = numbered tag (post_capture_counter st)
               (take (post_capture_remaining st) (concat (map persistable fs)))
       \<and> post_capture_remaining (fst (run_frames cam st fs))
           = post_capture_remaining st
               - length (take (post_capture_remaining st) (concat (map persistable fs)))
       \<and> post_capture_counter (fst (run_frames cam st fs))
           = post_capture_counter st
               + length (take (post_capture_remaining st) (concat (map persistable fs)))
       \<and> current_incident_tag (fst (run_frames cam st fs)) = Some tag"
  using assms
proof (induction fs arbitrary: st)
  case Nil
  then show ?case by (simp add: post_snapshots_Nil numbered_Nil)
next
  case (Cons f fs)
  let ?s1 = "fst (live_step cam st f)"
  let ?r = "post_capture_remaining st"
  let ?p = "persistable f"
  from Cons.prems(1) have q: "out_report (snd (live_step cam st f)) = None"
    and rest: "reports (snd (run_frames cam ?s1 fs)) = []"
    by (simp_all add: reports_Cons_empty)
  have w: "in_post_write f \<noteq> NotSaved" and ws: "\<forall>g\<in>set fs. in_post_write g \<noteq> NotSaved"
    using Cons.prems(3) by simp_all
  note d = step_quiet_drain [OF q Cons.prems(2) w]
  note ih = Cons.IH [OF rest d(4) ws]
  have len: "length ?p \<le> 1"
    by (simp add: persistable_def split: option.splits)
  have tk: "take ?r (?p @ concat (map persistable fs))
      = take ?r ?p @ take (?r - length (take ?r ?p)) (concat (map persistable fs))"
    using len by (cases ?p; cases ?r) simp_all
  show ?case
    using ih d(1,2,3) tk
    by (simp add: post_snapshots_Cons numbered_append)
qed




section \<open>Facts about the selection of the best candidate\<close>

lemma tuple_gt_trans: "tuple_gt a b \<Longrightarrow> tuple_gt b c \<Longrightarrow> tuple_gt a c"
  by (auto simp: tuple_gt_def)

lemma tuple_gt_irrefl: "\<not> tuple_gt a a"
  by (simp add: tuple_gt_def)

lemma tuple_gt_asym: "tuple_gt a b \<Longrightarrow> \<not> tuple_gt b a"
  by (auto simp: tuple_gt_def)

lemma tuple_gt_le_trans: "tuple_gt a b \<Longrightarrow> \<not> tuple_gt c b \<Longrightarrow> tuple_gt a c"
  by (auto simp: tuple_gt_def)

lemma tuple_le_gt_trans: "\<not> tuple_gt b a \<Longrightarrow> tuple_gt b c \<Longrightarrow> tuple_gt a c"
  by (auto simp: tuple_gt_def)

lemma tuple_le_trans: "\<not> tuple_gt a b \<Longrightarrow> \<not> tuple_gt b c \<Longrightarrow> \<not> tuple_gt a c"
  by (auto simp: tuple_gt_def)

lemma max_loop_first_maximum:
  "\<exists>i<length (best # rest).
      max_loop best rest = (best # rest) ! i
      \<and> (\<forall>j<length (best # rest). \<not> tuple_gt (cand_key ((best # rest) ! j)) (cand_key ((best # rest) ! i)))
      \<and> (\<forall>j<i. tuple_gt (cand_key ((best # rest) ! i)) (cand_key ((best # rest) ! j)))"
proof (induction rest arbitrary: best)
  case Nil
  show ?case by (simp add: tuple_gt_irrefl)
next
  case (Cons f rest)
  show ?case
  proof (cases "tuple_gt (cand_key f) (cand_key best)")
    case True
    from Cons.IH [of f] obtain i where i: "i < length (f # rest)"
      and m: "max_loop f rest = (f # rest) ! i"
      and mx: "\<forall>j<length (f # rest). \<not> tuple_gt (cand_key ((f # rest) ! j)) (cand_key ((f # rest) ! i))"
      and fi: "\<forall>j<i. tuple_gt (cand_key ((f # rest) ! i)) (cand_key ((f # rest) ! j))"
      by blast
    have fle: "\<not> tuple_gt (cand_key f) (cand_key ((f # rest) ! i))"
      using mx by (metis length_Cons nth_Cons_0 zero_less_Suc)
    have gb: "tuple_gt (cand_key ((f # rest) ! i)) (cand_key best)"
      using tuple_le_gt_trans [OF fle True] .
    have "Suc i < length (best # f # rest)" using i by simp
    moreover have "max_loop best (f # rest) = (best # f # rest) ! Suc i"
      using True m by simp
    moreover have "\<forall>j<length (best # f # rest).
        \<not> tuple_gt (cand_key ((best # f # rest) ! j)) (cand_key ((best # f # rest) ! Suc i))"
    proof (intro allI impI)
      fix j assume "j < length (best # f # rest)"
      then show "\<not> tuple_gt (cand_key ((best # f # rest) ! j)) (cand_key ((best # f # rest) ! Suc i))"
        using mx gb tuple_gt_asym by (cases j) auto
    qed
    moreover have "\<forall>j<Suc i.
        tuple_gt (cand_key ((best # f # rest) ! Suc i)) (cand_key ((best # f # rest) ! j))"
    proof (intro allI impI)
      fix j assume "j < Suc i"
      then show "tuple_gt (cand_key ((best # f # rest) ! Suc i)) (cand_key ((best # f # rest) ! j))"
        using fi gb by (cases j) auto
    qed
    ultimately show ?thesis by blast
  next
    case False
    from Cons.IH [of best] obtain i where i: "i < length (best # rest)"
      and m: "max_loop best rest = (best # rest) ! i"
      and mx: "\<forall>j<length (best # rest). \<not> tuple_gt (cand_key ((best # rest) ! j)) (cand_key ((best # rest) ! i))"
      and fi: "\<forall>j<i. tuple_gt (cand_key ((best # rest) ! i)) (cand_key ((best # rest) ! j))"
      by blast
    have ble: "\<not> tuple_gt (cand_key best) (cand_key ((best # rest) ! i))"
      using mx by (metis length_Cons nth_Cons_0 zero_less_Suc)
    have fle: "\<not> tuple_gt (cand_key f) (cand_key ((best # rest) ! i))"
      using tuple_le_trans [OF False ble] .
    show ?thesis
    proof (cases i)
      case 0
      have "0 < length (best # f # rest)" by simp
      moreover have "max_loop best (f # rest) = (best # f # rest) ! 0"
        using False m 0 by simp
      moreover have "\<forall>j<length (best # f # rest).
          \<not> tuple_gt (cand_key ((best # f # rest) ! j)) (cand_key ((best # f # rest) ! 0))"
      proof (intro allI impI)
        fix j assume j: "j < length (best # f # rest)"
        show "\<not> tuple_gt (cand_key ((best # f # rest) ! j)) (cand_key ((best # f # rest) ! 0))"
        proof (cases j)
          case 0
          then show ?thesis by (simp add: tuple_gt_irrefl)
        next
          case (Suc k)
          show ?thesis
          proof (cases k)
            case 0
            then show ?thesis using Suc False by simp
          next
            case (Suc l)
            then have "Suc l < length (best # rest)" using j \<open>j = Suc k\<close> by simp
            with mx have "\<not> tuple_gt (cand_key ((best # rest) ! Suc l)) (cand_key ((best # rest) ! i))"
              by blast
            then show ?thesis using \<open>j = Suc k\<close> Suc \<open>i = 0\<close> by simp
          qed
        qed
      qed
      ultimately show ?thesis by (metis not_less_zero)
    next
      case (Suc i')
      have gb: "tuple_gt (cand_key ((best # rest) ! i)) (cand_key best)"
        using fi Suc by (metis nth_Cons_0 zero_less_Suc)
      have gf: "tuple_gt (cand_key ((best # rest) ! i)) (cand_key f)"
        using tuple_gt_le_trans [OF gb False] .
      have "Suc i < length (best # f # rest)" using i by simp
      moreover have "max_loop best (f # rest) = (best # f # rest) ! Suc i"
        using False m Suc by simp
      moreover have "\<forall>j<length (best # f # rest).
          \<not> tuple_gt (cand_key ((best # f # rest) ! j)) (cand_key ((best # f # rest) ! Suc i))"
      proof (intro allI impI)
        fix j assume j: "j < length (best # f # rest)"
        show "\<not> tuple_gt (cand_key ((best # f # rest) ! j)) (cand_key ((best # f # rest) ! Suc i))"
        proof (cases j)
          case 0
          then show ?thesis using ble Suc by simp
        next
          case (Suc k)
          show ?thesis
          proof (cases k)
            case 0
            then show ?thesis using \<open>j = Suc k\<close> fle \<open>i = Suc i'\<close> by simp
          next
            case (Suc l)
            then have "Suc l < length (best # rest)" using j \<open>j = Suc k\<close> by simp
            with mx have "\<not> tuple_gt (cand_key ((best # rest) ! Suc l)) (cand_key ((best # rest) ! i))"
              by blast
            then show ?thesis using \<open>j = Suc k\<close> Suc \<open>i = Suc i'\<close> by simp
          qed
        qed
      qed
      moreover have "\<forall>j<Suc i.
          tuple_gt (cand_key ((best # f # rest) ! Suc i)) (cand_key ((best # f # rest) ! j))"
      proof (intro allI impI)
        fix j assume j: "j < Suc i"
        show "tuple_gt (cand_key ((best # f # rest) ! Suc i)) (cand_key ((best # f # rest) ! j))"
        proof (cases j)
          case 0
          then show ?thesis using gb Suc by simp
        next
          case (Suc k)
          show ?thesis
          proof (cases k)
            case 0
            then show ?thesis using \<open>j = Suc k\<close> gf \<open>i = Suc i'\<close> by simp
          next
            case (Suc l)
            then have "Suc l < i" using j \<open>j = Suc k\<close> by simp
            with fi have "tuple_gt (cand_key ((best # rest) ! i)) (cand_key ((best # rest) ! Suc l))"
              by blast
            then show ?thesis using \<open>j = Suc k\<close> Suc \<open>i = Suc i'\<close> by simp
          qed
        qed
      qed
      ultimately show ?thesis by blast
    qed
  qed
qed



section \<open>The sample inputs evaluated\<close>

lemma scan_crash:
  "fs_counts (scan_frame crash_result) =
     \<lparr>vehicle_count = 1, person_count = 1, total_danger_detections = 2,
      primary_vehicle_type = Some ''car'',
      filtered_boxes_xyxy = [(0, 0, 10, 10), (5, 5, 20, 20)]\<rparr>"
  "fs_collision_detected (scan_frame crash_result) = True"
  by (simp_all add: scan_frame_def crash_result_def sample_names_def count_step_def
      counts_init_def CONF_THRESH_def danger_class_names_def vehicle_classes_def
      person_classes_def Let_def)

lemma scan_clear:
  "fs_counts (scan_frame clear_result) = counts_init"
  "fs_collision_detected (scan_frame clear_result) = False"
  by (simp_all add: scan_frame_def clear_result_def)

lemma flagged_crash: "flagged (sample_frame i t crash_result)"
  by (simp add: flagged_def sample_frame_def decoded_def scan_crash frame_accident_def
      live_accident_detected_frame_def)

lemma unflagged_clear: "unflagged (sample_frame i t clear_result)"
  by (simp add: unflagged_def sample_frame_def decoded_def scan_clear frame_accident_def
      live_accident_detected_frame_def counts_init_def)

lemma not_flagged_clear: "\<not> flagged (sample_frame i t clear_result)"
  using unflagged_clear [of i t] by (simp add: flagged_def unflagged_def)

lemma sample_reply_ok: "read_reply (in_reply (sample_frame i t r)) \<noteq> Escaped"
  by (simp add: sample_frame_def decoded_def read_reply_def lookup_incident_id_def)

lemma post_write_sample: "in_post_write (sample_frame i t r) = Saved"
  by (simp add: sample_frame_def)


lemma persistable_samples:
  "concat (map persistable (map (\<lambda>i. sample_frame i t r) xs)) = xs"
  by (induction xs) (simp_all add: persistable_def sample_frame_def decoded_def)

lemma py_int_numeral: "py_int (numeral n) = numeral n"
  by (simp add: py_int_def)


section \<open>Temporal confirmation\<close>

text \<open>
  C1. For every camera, from a state whose streak counter is 0: one frame fewer than
  ACCIDENT_CONFIRM_FRAMES accident-flagged frames followed by a frame that is not flagged
  produce no incident report; exactly ACCIDENT_CONFIRM_FRAMES accident-flagged frames, the
  last of them outside the cooldown, produce exactly one report, sent on the last frame.
\<close>

theorem streak_confirmation:
  assumes zero: "accident_counter st = 0" and fl: "\<forall>f\<in>set fs. flagged f"
  shows "(length fs = ACCIDENT_CONFIRM_FRAMES - 1 \<and> unflagged g \<longrightarrow>
            reports (snd (run_frames cam st (fs @ [g]))) = [])
       \<and> (length fs = ACCIDENT_CONFIRM_FRAMES
            \<and> \<not> in_cooldown (in_now (last fs)) (last_alert_time st) \<longrightarrow>
            length (reports (snd (run_frames cam st fs))) = 1
            \<and> reports (snd (run_frames cam st (butlast fs))) = [])"
proof -
  have short: "reports (snd (run_frames cam st (fs @ [g]))) = []"
    if a: "length fs = ACCIDENT_CONFIRM_FRAMES - 1 \<and> unflagged g"
  proof -
  from a have "accident_counter st + length fs < ACCIDENT_CONFIRM_FRAMES"
    using zero by (simp add: ACCIDENT_CONFIRM_FRAMES_def)
  from run_flagged_below [OF fl this, of cam]
  have r: "reports (snd (run_frames cam st fs)) = []" by simp
  have "out_report (snd (live_step cam (fst (run_frames cam st fs)) g)) = None"
    using a by (simp add: step_unflagged)
  then show ?thesis
    using r by (simp add: run_frames_app reports_append reports_Cons reports_Nil)
  qed
  have full: "length (reports (snd (run_frames cam st fs))) = 1
            \<and> reports (snd (run_frames cam st (butlast fs))) = []"
    if b: "length fs = ACCIDENT_CONFIRM_FRAMES
            \<and> \<not> in_cooldown (in_now (last fs)) (last_alert_time st)"
  proof -
  from b have ne: "fs \<noteq> []" by (auto simp: ACCIDENT_CONFIRM_FRAMES_def)
  then have split: "fs = butlast fs @ [last fs]" by simp
  have fl': "\<forall>f\<in>set (butlast fs). flagged f"
    using fl by (meson in_set_butlastD)
  have lastf: "flagged (last fs)" using fl ne by simp
  have len: "length (butlast fs) = ACCIDENT_CONFIRM_FRAMES - 1" using b by simp
  then have "accident_counter st + length (butlast fs) < ACCIDENT_CONFIRM_FRAMES"
    using zero by (simp add: ACCIDENT_CONFIRM_FRAMES_def)
  from run_flagged_below [OF fl' this, of cam]
  have c: "accident_counter (fst (run_frames cam st (butlast fs))) = accident_counter st + length (butlast fs)"
    and l: "last_alert_time (fst (run_frames cam st (butlast fs))) = last_alert_time st"
    and r: "reports (snd (run_frames cam st (butlast fs))) = []"
    by simp_all
  let ?s = "fst (run_frames cam st (butlast fs))"
  have thr: "ACCIDENT_CONFIRM_FRAMES \<le> accident_counter ?s + 1"
    using c len zero by (simp add: ACCIDENT_CONFIRM_FRAMES_def)
  have cool: "\<not> in_cooldown (in_now (last fs)) (last_alert_time ?s)"
    using b l by simp
  from step_flagged_final(1) [OF lastf thr cool, of cam]
  obtain call where call: "out_report (snd (live_step cam ?s (last fs))) = Some call"
    by auto
  have "reports (snd (run_frames cam st (butlast fs @ [last fs]))) = [call]"
    using r call by (simp add: run_frames_app reports_append reports_Cons reports_Nil)
  then have "length (reports (snd (run_frames cam st fs))) = 1"
    using split by simp
  then show ?thesis
    using r by simp
  qed
  show ?thesis
    using short full by blast
qed

theorem streak_confirmation_witness:
  "reports (snd (run_frames ''LIVE_CAM_1'' new_camera_state
      ([sample_frame 1 1000 crash_result, sample_frame 2 1001 crash_result]
        @ [sample_frame 3 1002 clear_result]))) = []
   \<and> length (reports (snd (run_frames ''LIVE_CAM_1'' new_camera_state
      [sample_frame 1 1000 crash_result, sample_frame 2 1001 crash_result,
       sample_frame 3 1002 crash_result]))) = 1"
proof -
  have z: "accident_counter (new_camera_state :: nat camera_state) = 0"
    by (simp add: new_camera_state_def)
  have f2: "\<forall>f\<in>set [sample_frame 1 1000 crash_result, sample_frame 2 1001 crash_result]. flagged f"
    by (simp add: flagged_crash)
  have f3: "\<forall>f\<in>set [sample_frame 1 1000 crash_result, sample_frame 2 1001 crash_result,
       sample_frame 3 1002 crash_result]. flagged f"
    by (simp add: flagged_crash)
  have cool: "\<not> in_cooldown (in_now (sample_frame 3 1002 crash_result))
       (last_alert_time (new_camera_state :: nat camera_state))"
    by (simp add: in_cooldown_def new_camera_state_def ALERT_COOLDOWN_SECONDS_def)
  show ?thesis
    using streak_confirmation [OF z f2, of "sample_frame 3 1002 clear_result" "''LIVE_CAM_1''"]
      streak_confirmation [OF z f3, of "sample_frame 3 1002 clear_result" "''LIVE_CAM_1''"] cool
    by (simp add: ACCIDENT_CONFIRM_FRAMES_def unflagged_clear)
qed


section \<open>A gap in the accident run\<close>

text \<open>
  C2, as the code has it. After a frame that is not accident-flagged the streak counter
  is 0 and the candidate pool is what it was before the frame: a gap in the accident run
  resets the counter and leaves the pool alone.
\<close>

theorem gap_keeps_pool:
  "unflagged inp \<Longrightarrow>
     accident_counter (fst (live_step cam st inp)) = 0
     \<and> candidate_frames (fst (live_step cam st inp)) = candidate_frames st"
  by (simp add: step_unflagged)

theorem gap_keeps_pool_witness:
  "accident_counter (fst (live_step ''LIVE_CAM_1''
       (fst (live_step ''LIVE_CAM_1'' new_camera_state (sample_frame 1 1000 crash_result)))
       (sample_frame 2 1001 clear_result))) = 0
   \<and> candidate_frames (fst (live_step ''LIVE_CAM_1''
       (fst (live_step ''LIVE_CAM_1'' new_camera_state (sample_frame 1 1000 crash_result)))
       (sample_frame 2 1001 clear_result)))
     = candidate_frames
         (fst (live_step ''LIVE_CAM_1'' new_camera_state (sample_frame 1 1000 crash_result)))"
  using gap_keeps_pool [OF unflagged_clear, of "''LIVE_CAM_1''"
      "fst (live_step ''LIVE_CAM_1'' new_camera_state (sample_frame 1 1000 crash_result))" 2 1001]
  by simp

text \<open>
  The claim as it was stated fails: after one accident-flagged frame and one frame that is
  not flagged, on a new camera, the pool still holds the entry of the first frame.
\<close>

theorem gap_clears_pool_counterexample:
  "unflagged (sample_frame 2 1001 clear_result)
   \<and> candidate_frames (fst (live_step ''LIVE_CAM_1''
       (fst (live_step ''LIVE_CAM_1'' new_camera_state (sample_frame 1 1000 crash_result)))
       (sample_frame 2 1001 clear_result)))
     = [make_candidate 1 (Some 1001) (scan_frame crash_result)]
   \<and> candidate_frames (fst (live_step ''LIVE_CAM_1''
       (fst (live_step ''LIVE_CAM_1'' new_camera_state (sample_frame 1 1000 crash_result)))
       (sample_frame 2 1001 clear_result))) \<noteq> []"
proof -
  have below: "accident_counter (new_camera_state :: nat camera_state) + 1 < ACCIDENT_CONFIRM_FRAMES"
    by (simp add: new_camera_state_def ACCIDENT_CONFIRM_FRAMES_def)
  have first: "candidate_frames
      (fst (live_step ''LIVE_CAM_1'' new_camera_state (sample_frame 1 1000 crash_result)))
    = [make_candidate 1 (Some 1001) (scan_frame crash_result)]"
    using flagged_crash [of 1 1000] below
    by (simp add: flagged_def live_step_decoded on_frame_booked booked_fields sample_frame_def decoded_def
        deque_append_def CANDIDATE_MAXLEN_def new_camera_state_def)
  show ?thesis
    using first by (simp add: unflagged_clear step_unflagged)
qed


section \<open>Cooldown\<close>





section \<open>Reporter failure\<close>

text \<open>
  C4. When a confirmed incident is finalized (an accident-flagged frame brings the streak
  to the threshold outside the cooldown) and the reporter call fails, so that
  \<open>send_incident_to_backend\<close> returns \<open>None\<close>, the incident was still handed to the
  reporter, the last alert time is the current time, the streak counter is 0, the
  candidate pool is empty, and the caller receives accidents_detected = 0 and no
  incident id.
\<close>

theorem reporter_failure_still_resets:
  assumes "flagged inp" and "ACCIDENT_CONFIRM_FRAMES \<le> accident_counter st + 1"
    and "\<not> in_cooldown (in_now inp) (last_alert_time st)"
    and "in_reply inp = NoReply"
  shows "out_report (snd (live_step cam st inp)) \<noteq> None
       \<and> last_alert_time (fst (live_step cam st inp)) = in_now inp
       \<and> accident_counter (fst (live_step cam st inp)) = 0
       \<and> candidate_frames (fst (live_step cam st inp)) = []
       \<and> accidents_detected (out_response (snd (live_step cam st inp))) = 0
       \<and> incident_ids (out_response (snd (live_step cam st inp))) = []"
proof -
  from assms(1) obtain img where img: "decoded inp = Some img"
    and acc: "frame_accident (scan_frame (in_result inp))"
    by (auto simp: flagged_def)
  have step: "live_step cam st inp =
      finalize cam (booked st img inp) img inp (scan_frame (in_result inp)) (post_of st img inp)"
    using assms(2,3) acc by (simp add: live_step_decoded img on_frame_booked booked_fields)
  have c: "read_reply (in_reply inp) = Completed [] 0"
    using assms(4) by (simp add: read_reply_def)
  show ?thesis
    by (simp add: step finalize_report finalize_completed [OF c])
qed

theorem reporter_failure_still_resets_witness:
  "out_report (snd (live_step ''LIVE_CAM_1'' (new_camera_state\<lparr>accident_counter := 2\<rparr>)
       ((sample_frame 3 1002 crash_result)\<lparr>in_reply := NoReply\<rparr>))) \<noteq> None
   \<and> last_alert_time (fst (live_step ''LIVE_CAM_1'' (new_camera_state\<lparr>accident_counter := 2\<rparr>)
       ((sample_frame 3 1002 crash_result)\<lparr>in_reply := NoReply\<rparr>))) = 1002
   \<and> accident_counter (fst (live_step ''LIVE_CAM_1'' (new_camera_state\<lparr>accident_counter := 2\<rparr>)
       ((sample_frame 3 1002 crash_result)\<lparr>in_reply := NoReply\<rparr>))) = 0
   \<and> candidate_frames (fst (live_step ''LIVE_CAM_1'' (new_camera_state\<lparr>accident_counter := 2\<rparr>)
       ((sample_frame 3 1002 crash_result)\<lparr>in_reply := NoReply\<rparr>))) = []"
proof -
  have f: "flagged ((sample_frame 3 1002 crash_result)\<lparr>in_reply := NoReply\<rparr>)"
    using flagged_crash [of 3 1002] by (simp add: flagged_def sample_frame_def decoded_def)
  have thr: "ACCIDENT_CONFIRM_FRAMES
      \<le> accident_counter ((new_camera_state :: nat camera_state)\<lparr>accident_counter := 2\<rparr>) + 1"
    by (simp add: ACCIDENT_CONFIRM_FRAMES_def)
  have cool: "\<not> in_cooldown (in_now ((sample_frame 3 1002 crash_result)\<lparr>in_reply := NoReply\<rparr>))
      (last_alert_time ((new_camera_state :: nat camera_state)\<lparr>accident_counter := 2\<rparr>))"
    by (simp add: in_cooldown_def new_camera_state_def ALERT_COOLDOWN_SECONDS_def)
  have r: "in_reply ((sample_frame 3 1002 crash_result)\<lparr>in_reply := NoReply\<rparr>) = NoReply"
    by simp
  show ?thesis
    using reporter_failure_still_resets [OF f thr cool r, of "''LIVE_CAM_1''"]
    by (simp add: sample_frame_def decoded_def)
qed


section \<open>One scoring rule for both endpoints\<close>

text \<open>
  C5. For the same collision flag and the same vehicle, person and danger counts, the
  live endpoint and the video endpoint compute the same accident flag, the same severity
  and the same estimated number of victims.
\<close>

theorem live_video_same_decisions:
  "live_accident_detected_frame c v p d = video_accident_detected_frame c v p d
   \<and> live_severity c v p = video_severity c v p
   \<and> live_victims_estimated p = video_victims_estimated p"
  by (simp add: live_accident_detected_frame_def video_accident_detected_frame_def
      live_severity_def video_severity_def live_victims_estimated_def
      video_victims_estimated_def)


section \<open>Severity rules\<close>

text \<open>
  C6. The severity of a frame depends on the collision flag, the vehicle count and the
  person count only, by the first rule that matches: CRITICAL for a collision with two or
  more vehicles, else MAJOR for a collision with a person, else MEDIUM for a vehicle with
  two or more persons, else MINOR. Both endpoints compute it so, the severity stored
  with a candidate frame is this function of the frame's three values, and the four
  sample points of the specification come out as stated.
\<close>

theorem severity_first_match:
  "live_severity c v p = severity_spec c v p
   \<and> video_severity c v p = severity_spec c v p
   \<and> cand_severity (make_candidate img plot fs)
       = severity_spec (fs_collision_detected fs) (vehicle_count (fs_counts fs))
           (person_count (fs_counts fs))
   \<and> live_severity True 2 0 = CRITICAL
   \<and> live_severity True 0 1 = MAJOR
   \<and> live_severity False 1 2 = MEDIUM
   \<and> live_severity False 0 0 = MINOR"
  by (simp add: live_severity_def video_severity_def severity_spec_def make_candidate_def
      frame_severity_def Let_def)


section \<open>Candidate selection\<close>

text \<open>
  C7. For every non-empty candidate pool whose entries carry the rank of their severity
  as score (every entry the endpoint appends does), the selected entry is an entry of
  the pool; every entry has a smaller rank of severity, or the same rank and an overlap
  ratio that is not greater; and every entry before it in the pool has a smaller rank,
  or the same rank and a smaller overlap ratio: among equal maxima the first-seen is
  chosen. The ranks of MINOR, MEDIUM, MAJOR, CRITICAL are 1, 2, 3, 4. From
  (MEDIUM, 0.2), (CRITICAL, 0.1), (MAJOR, 0.9) the CRITICAL entry is chosen; from
  (MAJOR, 0.3), (MAJOR, 0.7), (MINOR, 0.9) the second, by its overlap ratio; from
  (MAJOR, 0.7), (MINOR, 0.9), (MAJOR, 0.7) the first of the two equal ones.
\<close>

theorem best_candidate_selection:
  assumes "pool \<noteq> []"
    and "\<forall>f\<in>set pool. cand_severity_score f = severity_order (cand_severity f)"
  shows "(\<exists>i<length pool.
            best_candidate pool = Some (pool ! i)
            \<and> (\<forall>j<length pool.
                  severity_order (cand_severity (pool ! j)) < severity_order (cand_severity (pool ! i))
                  \<or> (severity_order (cand_severity (pool ! j))
                        = severity_order (cand_severity (pool ! i))
                      \<and> cand_overlap_ratio (pool ! j) \<le> cand_overlap_ratio (pool ! i)))
            \<and> (\<forall>j<i.
                  severity_order (cand_severity (pool ! j)) < severity_order (cand_severity (pool ! i))
                  \<or> (severity_order (cand_severity (pool ! j))
                        = severity_order (cand_severity (pool ! i))
                      \<and> cand_overlap_ratio (pool ! j) < cand_overlap_ratio (pool ! i))))
       \<and> severity_order MINOR = 1 \<and> severity_order MEDIUM = 2
       \<and> severity_order MAJOR = 3 \<and> severity_order CRITICAL = 4
       \<and> best_candidate [sample_candidate MEDIUM (2 / 10) 1, sample_candidate CRITICAL (1 / 10) 2,
            sample_candidate MAJOR (9 / 10) 3] = Some (sample_candidate CRITICAL (1 / 10) 2)
       \<and> best_candidate [sample_candidate MAJOR (3 / 10) 1, sample_candidate MAJOR (7 / 10) 2,
            sample_candidate MINOR (9 / 10) 3] = Some (sample_candidate MAJOR (7 / 10) 2)
       \<and> best_candidate [sample_candidate MAJOR (7 / 10) 1, sample_candidate MINOR (9 / 10) 2,
            sample_candidate MAJOR (7 / 10) 3] = Some (sample_candidate MAJOR (7 / 10) 1)"
proof -
  from assms(1) obtain f rest where pool: "pool = f # rest" by (cases pool) auto
  from max_loop_first_maximum [of f rest] obtain i where i: "i < length pool"
    and m: "max_loop f rest = pool ! i"
    and mx: "\<forall>j<length pool. \<not> tuple_gt (cand_key (pool ! j)) (cand_key (pool ! i))"
    and fi: "\<forall>j<i. tuple_gt (cand_key (pool ! i)) (cand_key (pool ! j))"
    unfolding pool by blast
  have score: "cand_severity_score (pool ! j) = severity_order (cand_severity (pool ! j))"
    if "j < length pool" for j
    using assms(2) that by simp
  have chosen: "best_candidate pool = Some (pool ! i)"
    using m by (simp add: pool best_candidate_def)
  have greatest: "severity_order (cand_severity (pool ! j)) < severity_order (cand_severity (pool ! i))
      \<or> (severity_order (cand_severity (pool ! j)) = severity_order (cand_severity (pool ! i))
          \<and> cand_overlap_ratio (pool ! j) \<le> cand_overlap_ratio (pool ! i))"
    if j: "j < length pool" for j
  proof -
    from mx j have "\<not> tuple_gt (cand_key (pool ! j)) (cand_key (pool ! i))" by blast
    then show ?thesis
      using score [OF j] score [OF i] by (auto simp: tuple_gt_def cand_key_def)
  qed
  have earliest: "severity_order (cand_severity (pool ! j)) < severity_order (cand_severity (pool ! i))
      \<or> (severity_order (cand_severity (pool ! j)) = severity_order (cand_severity (pool ! i))
          \<and> cand_overlap_ratio (pool ! j) < cand_overlap_ratio (pool ! i))"
    if j: "j < i" for j
  proof -
    from fi j have "tuple_gt (cand_key (pool ! i)) (cand_key (pool ! j))" by blast
    moreover have "j < length pool" using j i by simp
    ultimately show ?thesis
      using score [of j] score [OF i] by (auto simp: tuple_gt_def cand_key_def)
  qed
  have general: "\<exists>i<length pool.
            best_candidate pool = Some (pool ! i)
            \<and> (\<forall>j<length pool.
                  severity_order (cand_severity (pool ! j)) < severity_order (cand_severity (pool ! i))
                  \<or> (severity_order (cand_severity (pool ! j))
                        = severity_order (cand_severity (pool ! i))
                      \<and> cand_overlap_ratio (pool ! j) \<le> cand_overlap_ratio (pool ! i)))
            \<and> (\<forall>j<i.
                  severity_order (cand_severity (pool ! j)) < severity_order (cand_severity (pool ! i))
                  \<or> (severity_order (cand_severity (pool ! j))
                        = severity_order (cand_severity (pool ! i))
                      \<and> cand_overlap_ratio (pool ! j) < cand_overlap_ratio (pool ! i)))"
    using i chosen greatest earliest by blast
  have by_rank: "best_candidate [sample_candidate MEDIUM (2 / 10) 1, sample_candidate CRITICAL (1 / 10) 2,
            sample_candidate MAJOR (9 / 10) 3] = Some (sample_candidate CRITICAL (1 / 10) 2)"
    by (simp add: best_candidate_def sample_candidate_def cand_key_def tuple_gt_def)
  have by_ratio: "best_candidate [sample_candidate MAJOR (3 / 10) 1, sample_candidate MAJOR (7 / 10) 2,
            sample_candidate MINOR (9 / 10) 3] = Some (sample_candidate MAJOR (7 / 10) 2)"
    by (simp add: best_candidate_def sample_candidate_def cand_key_def tuple_gt_def)
  have by_position: "best_candidate [sample_candidate MAJOR (7 / 10) 1, sample_candidate MINOR (9 / 10) 2,
            sample_candidate MAJOR (7 / 10) 3] = Some (sample_candidate MAJOR (7 / 10) 1)"
    by (simp add: best_candidate_def sample_candidate_def cand_key_def tuple_gt_def)
  show ?thesis
    using general by_rank by_ratio by_position by simp
qed

theorem best_candidate_selection_witness:
  "\<exists>i<length [sample_candidate MAJOR (3 / 10) 1, sample_candidate MAJOR (7 / 10) 2,
                 sample_candidate MAJOR (7 / 10) 3].
      best_candidate [sample_candidate MAJOR (3 / 10) 1, sample_candidate MAJOR (7 / 10) 2,
                 sample_candidate MAJOR (7 / 10) 3]
        = Some ([sample_candidate MAJOR (3 / 10) 1, sample_candidate MAJOR (7 / 10) 2,
                 sample_candidate MAJOR (7 / 10) 3] ! i)
      \<and> (\<forall>j<length [sample_candidate MAJOR (3 / 10) 1, sample_candidate MAJOR (7 / 10) 2,
                 sample_candidate MAJOR (7 / 10) 3].
            severity_order (cand_severity ([sample_candidate MAJOR (3 / 10) 1,
                 sample_candidate MAJOR (7 / 10) 2, sample_candidate MAJOR (7 / 10) 3] ! j))
              < severity_order (cand_severity ([sample_candidate MAJOR (3 / 10) 1,
                 sample_candidate MAJOR (7 / 10) 2, sample_candidate MAJOR (7 / 10) 3] ! i))
            \<or> (severity_order (cand_severity ([sample_candidate MAJOR (3 / 10) 1,
                 sample_candidate MAJOR (7 / 10) 2, sample_candidate MAJOR (7 / 10) 3] ! j))
                  = severity_order (cand_severity ([sample_candidate MAJOR (3 / 10) 1,
                 sample_candidate MAJOR (7 / 10) 2, sample_candidate MAJOR (7 / 10) 3] ! i))
                \<and> cand_overlap_ratio ([sample_candidate MAJOR (3 / 10) 1,
                 sample_candidate MAJOR (7 / 10) 2, sample_candidate MAJOR (7 / 10) 3] ! j)
                  \<le> cand_overlap_ratio ([sample_candidate MAJOR (3 / 10) 1,
                 sample_candidate MAJOR (7 / 10) 2, sample_candidate MAJOR (7 / 10) 3] ! i)))
      \<and> (\<forall>j<i.
            severity_order (cand_severity ([sample_candidate MAJOR (3 / 10) 1,
                 sample_candidate MAJOR (7 / 10) 2, sample_candidate MAJOR (7 / 10) 3] ! j))
              < severity_order (cand_severity ([sample_candidate MAJOR (3 / 10) 1,
                 sample_candidate MAJOR (7 / 10) 2, sample_candidate MAJOR (7 / 10) 3] ! i))
            \<or> (severity_order (cand_severity ([sample_candidate MAJOR (3 / 10) 1,
                 sample_candidate MAJOR (7 / 10) 2, sample_candidate MAJOR (7 / 10) 3] ! j))
                  = severity_order (cand_severity ([sample_candidate MAJOR (3 / 10) 1,
                 sample_candidate MAJOR (7 / 10) 2, sample_candidate MAJOR (7 / 10) 3] ! i))
                \<and> cand_overlap_ratio ([sample_candidate MAJOR (3 / 10) 1,
                 sample_candidate MAJOR (7 / 10) 2, sample_candidate MAJOR (7 / 10) 3] ! j)
                  < cand_overlap_ratio ([sample_candidate MAJOR (3 / 10) 1,
                 sample_candidate MAJOR (7 / 10) 2, sample_candidate MAJOR (7 / 10) 3] ! i)))"
proof -
  define pool where "pool = [sample_candidate MAJOR (3 / 10) 1, sample_candidate MAJOR (7 / 10) 2,
                 sample_candidate MAJOR (7 / 10) 3]"
  have ne: "pool \<noteq> []" by (simp add: pool_def)
  have wf: "\<forall>f\<in>set pool. cand_severity_score f = severity_order (cand_severity f)"
    by (simp add: pool_def sample_candidate_def)
  from best_candidate_selection [OF ne wf]
  have "\<exists>i<length pool.
            best_candidate pool = Some (pool ! i)
            \<and> (\<forall>j<length pool.
                  severity_order (cand_severity (pool ! j)) < severity_order (cand_severity (pool ! i))
                  \<or> (severity_order (cand_severity (pool ! j))
                        = severity_order (cand_severity (pool ! i))
                      \<and> cand_overlap_ratio (pool ! j) \<le> cand_overlap_ratio (pool ! i)))
            \<and> (\<forall>j<i.
                  severity_order (cand_severity (pool ! j)) < severity_order (cand_severity (pool ! i))
                  \<or> (severity_order (cand_severity (pool ! j))
                        = severity_order (cand_severity (pool ! i))
                      \<and> cand_overlap_ratio (pool ! j) < cand_overlap_ratio (pool ! i)))"
    by blast
  then show ?thesis unfolding pool_def .
qed


section \<open>Post-accident capture\<close>

text \<open>
  C9, as the code has it. After a request that confirmed and reported an incident, for
  as long as no further incident is confirmed, and where no snapshot write returns
  \<open>False\<close>: the frames that decode and are written are persisted in arrival order
  under the tag of that incident, numbered from 0, up to POST_CAPTURE_FRAMES of them;
  the countdown is POST_CAPTURE_FRAMES minus the number persisted and the tag stays.
  Once POST_CAPTURE_FRAMES such frames have arrived, exactly POST_CAPTURE_FRAMES are
  persisted and the countdown is 0. (What a write that returns \<open>False\<close> does is
  \<open>step_unsaved_post\<close>; the statement here neither promises nor excludes it.)
\<close>

theorem post_capture_drain:
  assumes "out_report (snd (live_step cam st f)) \<noteq> None"
    and "reports (snd (run_frames cam (fst (live_step cam st f)) fs)) = []"
    and "\<forall>g\<in>set fs. in_post_write g \<noteq> NotSaved"
  shows "post_snapshots (snd (run_frames cam (fst (live_step cam st f)) fs))
           = numbered (cam, py_int (in_now f)) 0
               (take POST_CAPTURE_FRAMES (concat (map persistable fs)))
       \<and> post_capture_remaining (fst (run_frames cam (fst (live_step cam st f)) fs))
           = POST_CAPTURE_FRAMES
               - length (take POST_CAPTURE_FRAMES (concat (map persistable fs)))
       \<and> current_incident_tag (fst (run_frames cam (fst (live_step cam st f)) fs))
           = Some (cam, py_int (in_now f))
       \<and> (POST_CAPTURE_FRAMES \<le> length (concat (map persistable fs)) \<longrightarrow>
            length (post_snapshots (snd (run_frames cam (fst (live_step cam st f)) fs)))
              = POST_CAPTURE_FRAMES
            \<and> post_capture_remaining (fst (run_frames cam (fst (live_step cam st f)) fs)) = 0)"
proof -
  note a = step_reported_armed [OF assms(1)]
  from run_quiet_drain [OF assms(2) a(3) assms(3)]
  have d: "post_snapshots (snd (run_frames cam (fst (live_step cam st f)) fs))
           = numbered (cam, py_int (in_now f)) 0
               (take POST_CAPTURE_FRAMES (concat (map persistable fs)))"
    "post_capture_remaining (fst (run_frames cam (fst (live_step cam st f)) fs))
           = POST_CAPTURE_FRAMES
               - length (take POST_CAPTURE_FRAMES (concat (map persistable fs)))"
    "current_incident_tag (fst (run_frames cam (fst (live_step cam st f)) fs))
           = Some (cam, py_int (in_now f))"
    by (simp_all add: a)
  show ?thesis
    using d by (simp add: length_numbered)
qed

theorem post_capture_drain_witness:
  "post_snapshots (snd (run_frames ''LIVE_CAM_1''
       (fst (live_step ''LIVE_CAM_1'' (new_camera_state\<lparr>accident_counter := 2\<rparr>)
              (sample_frame 3 1002 crash_result)))
       (map (\<lambda>i. sample_frame i 1003 clear_result) [4, 5])))
     = [((''LIVE_CAM_1'', 1002), 0, 4), ((''LIVE_CAM_1'', 1002), 1, 5)]
   \<and> post_capture_remaining (fst (run_frames ''LIVE_CAM_1''
       (fst (live_step ''LIVE_CAM_1'' (new_camera_state\<lparr>accident_counter := 2\<rparr>)
              (sample_frame 3 1002 crash_result)))
       (map (\<lambda>i. sample_frame i 1003 clear_result) [4, 5]))) = 23"
proof -
  let ?st = "(new_camera_state :: nat camera_state)\<lparr>accident_counter := 2\<rparr>"
  let ?f = "sample_frame 3 1002 crash_result"
  let ?fs = "map (\<lambda>i. sample_frame i 1003 clear_result) [4, 5]"
  have thr: "ACCIDENT_CONFIRM_FRAMES \<le> accident_counter ?st + 1"
    by (simp add: ACCIDENT_CONFIRM_FRAMES_def)
  have cool: "\<not> in_cooldown (in_now ?f) (last_alert_time ?st)"
    by (simp add: new_camera_state_def in_cooldown_never)
  note fin = step_flagged_final [OF flagged_crash thr cool, of "''LIVE_CAM_1''"]
  have z: "accident_counter (fst (live_step ''LIVE_CAM_1'' ?st ?f)) = 0"
    using fin(2) sample_reply_ok by blast
  have nf: "\<forall>g\<in>set ?fs. \<not> flagged g"
    by (simp add: not_flagged_clear)
  from run_not_flagged [OF nf z]
  have quiet: "reports (snd (run_frames ''LIVE_CAM_1'' (fst (live_step ''LIVE_CAM_1'' ?st ?f)) ?fs)) = []"
    by simp
  have p: "concat (map persistable ?fs) = [4, 5]"
    by (rule persistable_samples)
  have nw: "\<forall>g\<in>set ?fs. in_post_write g \<noteq> NotSaved"
    by (simp add: post_write_sample)
  show ?thesis
    using post_capture_drain [OF fin(1) quiet nw]
    by (simp only: p) (simp add: POST_CAPTURE_FRAMES_def POST_CAPTURE_SECONDS_def
        POST_CAPTURE_FPS_def numbered_Cons numbered_Nil sample_frame_def decoded_def py_int_numeral)
qed

text \<open>
  The claim as it was stated fails when a further incident is confirmed before the
  countdown has run out. Frames arrive 30 seconds apart; the third confirms an incident
  with tag (LIVE_CAM_1, 1060); the sixth, 90 seconds later and outside the cooldown,
  confirms another and re-arms the capture under the tag (LIVE_CAM_1, 1150). Of the
  POST_CAPTURE_FRAMES frames after the first incident, all decoded and written, three
  carry its tag and 22 carry the tag of the second.
\<close>

theorem post_capture_override_counterexample:
  "length (reports (snd (run_frames ''LIVE_CAM_1'' new_camera_state
       [sample_frame 1 1000 crash_result, sample_frame 2 1030 crash_result,
        sample_frame 3 1060 crash_result]))) = 1
   \<and> current_incident_tag (fst (run_frames ''LIVE_CAM_1'' new_camera_state
       [sample_frame 1 1000 crash_result, sample_frame 2 1030 crash_result,
        sample_frame 3 1060 crash_result])) = Some (''LIVE_CAM_1'', 1060)
   \<and> length ([sample_frame 4 1090 crash_result, sample_frame 5 1120 crash_result]
         @ [sample_frame 6 1150 crash_result]
         @ map (\<lambda>i. sample_frame i 1200 clear_result) [7..<29]) = POST_CAPTURE_FRAMES
   \<and> concat (map persistable
        ([sample_frame 4 1090 crash_result, sample_frame 5 1120 crash_result]
         @ [sample_frame 6 1150 crash_result]
         @ map (\<lambda>i. sample_frame i 1200 clear_result) [7..<29])) = [4..<29]
   \<and> post_snapshots (snd (run_frames ''LIVE_CAM_1''
        (fst (run_frames ''LIVE_CAM_1'' new_camera_state
          [sample_frame 1 1000 crash_result, sample_frame 2 1030 crash_result,
           sample_frame 3 1060 crash_result]))
        ([sample_frame 4 1090 crash_result, sample_frame 5 1120 crash_result]
         @ [sample_frame 6 1150 crash_result]
         @ map (\<lambda>i. sample_frame i 1200 clear_result) [7..<29])))
     = numbered (''LIVE_CAM_1'', 1060) 0 [4, 5, 6] @ numbered (''LIVE_CAM_1'', 1150) 0 [7..<29]"
proof -
  define cam where "cam = ''LIVE_CAM_1''"
  define A where "A = [sample_frame 1 1000 crash_result, sample_frame 2 1030 crash_result,
        sample_frame (3::nat) 1060 crash_result]"
  define B where "B = [sample_frame 4 1090 crash_result, sample_frame (5::nat) 1120 crash_result]"
  define f6 where "f6 = sample_frame (6::nat) 1150 crash_result"
  define C where "C = map (\<lambda>i. sample_frame i 1200 clear_result) [7..<29]"
  define s3 where "s3 = fst (run_frames cam new_camera_state A)"
  define s5 where "s5 = fst (run_frames cam s3 B)"
  define s6 where "s6 = fst (live_step cam s5 f6)"
  have z0: "accident_counter (new_camera_state :: nat camera_state) = 0"
    by (simp add: new_camera_state_def)
  have flA: "\<forall>f\<in>set A. flagged f" by (simp add: A_def flagged_crash)
  have lenA: "length A = ACCIDENT_CONFIRM_FRAMES" by (simp add: A_def ACCIDENT_CONFIRM_FRAMES_def)
  have lastA: "in_now (last A) = 1060" by (simp add: A_def sample_frame_def decoded_def)
  have coolA: "\<not> in_cooldown (in_now (last A)) (last_alert_time (new_camera_state :: nat camera_state))"
    by (simp add: new_camera_state_def in_cooldown_never)
  have okA: "read_reply (in_reply (last A)) \<noteq> Escaped"
    by (simp add: A_def sample_reply_ok)
  note repA = run_streak_reported [OF z0 flA lenA coolA, of cam]
  note armA = run_streak_armed [OF z0 flA lenA coolA, of cam]
  have c3: "accident_counter s3 = 0" and l3: "last_alert_time s3 = 1060"
    using repA(2) [OF okA] lastA by (simp_all add: s3_def)
  have t3: "current_incident_tag s3 = Some (cam, 1060)"
    and r3: "post_capture_remaining s3 = POST_CAPTURE_FRAMES"
    and k3: "post_capture_counter s3 = 0"
    using armA lastA by (simp_all add: s3_def py_int_numeral)
  \<comment> \<open>two more flagged frames: post-accident snapshots 0 and 1 of the first incident\<close>
  have flB: "\<forall>f\<in>set B. flagged f" by (simp add: B_def flagged_crash)
  have lenB: "length B = 2" by (simp add: B_def)
  have belowB: "accident_counter s3 + length B < ACCIDENT_CONFIRM_FRAMES"
    by (simp add: c3 lenB ACCIDENT_CONFIRM_FRAMES_def)
  from run_flagged_below [OF flB belowB, of cam]
  have c5: "accident_counter s5 = 2" and l5: "last_alert_time s5 = 1060"
    and qB: "reports (snd (run_frames cam s3 B)) = []"
    by (simp_all add: s5_def c3 l3 lenB)
  have pB: "concat (map persistable B) = [4, 5]"
    by (simp add: B_def persistable_def sample_frame_def decoded_def)
  have wB: "\<forall>g\<in>set B. in_post_write g \<noteq> NotSaved"
    by (simp add: B_def post_write_sample)
  from run_quiet_drain [OF qB t3 wB]
  have postB: "post_snapshots (snd (run_frames cam s3 B)) = numbered (cam, 1060) 0 [4, 5]"
    and r5: "post_capture_remaining s5 = 23" and k5: "post_capture_counter s5 = 2"
    and t5: "current_incident_tag s5 = Some (cam, 1060)"
    by (simp_all add: s5_def pB r3 k3 POST_CAPTURE_FRAMES_def POST_CAPTURE_SECONDS_def
        POST_CAPTURE_FPS_def)
  \<comment> \<open>the sixth frame confirms a second incident, 90 seconds after the first\<close>
  have fl6: "flagged f6" by (simp add: f6_def flagged_crash)
  have thr6: "ACCIDENT_CONFIRM_FRAMES \<le> accident_counter s5 + 1"
    by (simp add: c5 ACCIDENT_CONFIRM_FRAMES_def)
  have cool6: "\<not> in_cooldown (in_now f6) (last_alert_time s5)"
    by (simp add: l5 f6_def sample_frame_def decoded_def in_cooldown_def ALERT_COOLDOWN_SECONDS_def)
  note fin6 = step_flagged_final [OF fl6 thr6 cool6, of cam]
  have ok6: "read_reply (in_reply f6) \<noteq> Escaped" by (simp add: f6_def sample_reply_ok)
  have c6: "accident_counter s6 = 0" using fin6(2) [OF ok6] by (simp add: s6_def)
  have img6: "decoded f6 = Some 6" by (simp add: f6_def sample_frame_def decoded_def)
  have "post_of s5 6 f6 = Some ((cam, 1060), 2, 6)"
    by (simp add: post_of_eq t5 r5 k5 f6_def sample_frame_def decoded_def)
  then have post6: "out_post_snapshot (snd (live_step cam s5 f6)) = Some ((cam, 1060), 2, 6)"
    using step_post [OF img6, of cam s5] by simp
  have t6: "current_incident_tag s6 = Some (cam, 1150)"
    and r6: "post_capture_remaining s6 = POST_CAPTURE_FRAMES"
    and k6: "post_capture_counter s6 = 0"
    using step_reported_armed [OF fin6(1)]
    by (simp_all add: s6_def f6_def sample_frame_def decoded_def py_int_numeral)
  \<comment> \<open>22 frames without an accident: they are numbered for the second incident\<close>
  have nfC: "\<forall>g\<in>set C. \<not> flagged g" by (auto simp: C_def not_flagged_clear)
  from run_not_flagged [OF nfC c6, of cam]
  have qC: "reports (snd (run_frames cam s6 C)) = []" by simp
  have pC: "concat (map persistable C) = [7..<29]"
    unfolding C_def by (rule persistable_samples)
  have wC: "\<forall>g\<in>set C. in_post_write g \<noteq> NotSaved"
    by (auto simp: C_def post_write_sample)
  from run_quiet_drain [OF qC t6 wC]
  have postC: "post_snapshots (snd (run_frames cam s6 C)) = numbered (cam, 1150) 0 [7..<29]"
    by (simp add: pC r6 k6 POST_CAPTURE_FRAMES_def POST_CAPTURE_SECONDS_def POST_CAPTURE_FPS_def)
  have all: "post_snapshots (snd (run_frames cam s3 (B @ [f6] @ C)))
      = numbered (cam, 1060) 0 [4, 5, 6] @ numbered (cam, 1150) 0 [7..<29]"
    using postB post6 postC
    by (simp add: run_frames_app post_snapshots_append post_snapshots_Cons s5_def [symmetric]
        s6_def [symmetric] numbered_Cons numbered_Nil)
  have len: "length (B @ [f6] @ C) = POST_CAPTURE_FRAMES"
    by (simp add: B_def C_def POST_CAPTURE_FRAMES_def POST_CAPTURE_SECONDS_def POST_CAPTURE_FPS_def)
  have "[4..<29] = 4 # 5 # 6 # [7..<29]"
    by (simp add: upt_conv_Cons)
  then have pall: "concat (map persistable (B @ [f6] @ C)) = [4..<29]"
    using pB pC by (simp add: f6_def persistable_def sample_frame_def decoded_def)
  have res: "length (reports (snd (run_frames cam new_camera_state A))) = 1
    \<and> current_incident_tag s3 = Some (cam, 1060)
    \<and> length (B @ [f6] @ C) = POST_CAPTURE_FRAMES
    \<and> concat (map persistable (B @ [f6] @ C)) = [4..<29]
    \<and> post_snapshots (snd (run_frames cam s3 (B @ [f6] @ C)))
      = numbered (cam, 1060) 0 [4, 5, 6] @ numbered (cam, 1150) 0 [7..<29]"
    using repA(1) t3 len pall all by blast
  show ?thesis
    using res unfolding s3_def cam_def A_def B_def f6_def C_def .
qed


section \<open>The bound of the candidate pool\<close>



end
